theory Spec2Isabelle
  imports Complex_Main
begin

section \<open>Python values and the data model\<close>

text \<open>
  The bot keeps its session in module-level globals (twitter_bot5.py, lines 44-51 and 357)
  and talks to three HTTP services. The values that travel through the code are decoded
  JSON: \<open>response.json()\<close> yields \<open>None\<close>, booleans, numbers, strings, lists and
  dictionaries. Numbers are kept as integers here; the code only ever tests them for
  truthiness. A dictionary is an association list in document order; on a duplicate key
  Python's decoder keeps the last binding.
\<close>

datatype json =
    JNull
  | JBool bool
  | JNum int
  | JStr string
  | JList "json list"
  | JDict "(string \<times> json) list"

text \<open>Python truthiness, as used by \<open>if not articles\<close> and \<open>if title and (description or url)\<close>.\<close>

fun truthy :: "json \<Rightarrow> bool" where
  "truthy JNull = False"
| "truthy (JBool b) = b"
| "truthy (JNum n) = (n \<noteq> 0)"
| "truthy (JStr s) = (s \<noteq> [])"
| "truthy (JList xs) = (xs \<noteq> [])"
| "truthy (JDict kvs) = (kvs \<noteq> [])"

text \<open>The exceptions that the modelled code can raise and does not catch itself.\<close>

datatype error =
    ConnectionError
  | JSONDecodeError
  | AttributeError
  | TypeError

text \<open>
  A formatted article is the dictionary built at lines 83-88: always the four keys
  \<open>title\<close>, \<open>description\<close>, \<open>source\<close>, \<open>url\<close>, holding whatever \<open>.get\<close> returned.
\<close>

record article =
  title :: json
  description :: json
  source :: json
  url :: json

text \<open>
  The texts sent with \<open>reply_text\<close> are fixed literals except for three that embed data:
  the article card built by \<open>select_article\<close> (lines 114-120), the tweet preview
  (lines 276-283) and the message returned by \<open>post_tweet\<close>.
\<close>

datatype reply =
    Welcome
  | HelpText
  | LookingForNews
  | FetchFailed
  | AllUsedRefetching
  | FetchNewFailed
  | ArticleInfo nat nat article
  | GeneratingTweet
  | GenerateFailed
  | TweetPreview string
  | UseTweetFirst
  | PostingTweet
  | PostResult string
  | PostedShuttingDown
  | LookingForNewArticle
  | Cancelled
  | UsageHint

section \<open>Selection policy\<close>

text \<open>
  \<open>available_articles = [i for i in range(len(articles)) if i not in used_indices]\<close>
  (twitter_bot5.py line 105, twitter_bot2.py line 61).
\<close>

definition available_articles :: "'a list \<Rightarrow> nat list \<Rightarrow> nat list" where
  "available_articles articles used = filter (\<lambda>i. i \<notin> set used) [0..<length articles]"

text \<open>
  \<open>random.choice(seq)\<close> is \<open>seq[randbelow(len(seq))]\<close>. The random draw is an explicit
  argument \<open>r\<close>; reducing it modulo the length gives every position of a non-empty
  sequence for some draw. The caller never passes an empty sequence.
\<close>

definition random_choice :: "nat \<Rightarrow> nat list \<Rightarrow> nat" where
  "random_choice r seq = seq ! (r mod length seq)"

text \<open>
  \<open>select_article\<close> of twitter_bot5.py (lines 96-122): \<open>None\<close> when nothing is left,
  otherwise the chosen index with the article card. The argument \<open>articles\<close> is a list
  here; the call with \<open>None\<close> (which raises at \<open>len\<close>) is handled where it occurs, in
  \<open>tweet_command\<close>.
\<close>

definition select_article :: "article list \<Rightarrow> nat list \<Rightarrow> nat \<Rightarrow> (nat \<times> reply) option" where
  "select_article articles used r =
     (let available = available_articles articles used in
      if available = [] then None
      else
        (let selected_index = random_choice r available;
             selected_article = articles ! selected_index
         in Some (selected_index,
                  ArticleInfo (selected_index + 1) (length articles) selected_article)))"

text \<open>
  \<open>select_article\<close> of twitter_bot2.py (lines 52-78): the same choice, printed to the
  console instead of returned as a card; the result is the index alone.
\<close>

definition select_article_cli :: "article list \<Rightarrow> nat list \<Rightarrow> nat \<Rightarrow> nat option" where
  "select_article_cli articles used r =
     (let available = available_articles articles used in
      if available = [] then None
      else Some (random_choice r available))"

text \<open>
  The caller's protocol (twitter_bot5.py lines 250 and 261-262, twitter_bot2.py lines 179
  and 191): call \<open>select_article\<close>, append the returned index to the used list,
  repeat. One random draw per call; the results of the calls are collected in order, and
  the final used list is returned with them.
\<close>

fun select_repeatedly :: "article list \<Rightarrow> nat list \<Rightarrow> nat list \<Rightarrow> nat option list \<times> nat list" where
  "select_repeatedly articles used [] = ([], used)"
| "select_repeatedly articles used (r # rs) =
     (case select_article articles used r of
        None \<Rightarrow>
          (case select_repeatedly articles used rs of (res, u) \<Rightarrow> (None # res, u))
      | Some (i, info) \<Rightarrow>
          (case select_repeatedly articles (used @ [i]) rs of (res, u) \<Rightarrow> (Some i # res, u)))"

section \<open>News source adapter\<close>

text \<open>
  \<open>d.get(k, default)\<close>: only a dictionary has the method; on any other value the call
  raises \<open>AttributeError\<close>.
\<close>

definition dict_get :: "json \<Rightarrow> string \<Rightarrow> json \<Rightarrow> error + json" where
  "dict_get d k dflt =
     (case d of
        JDict kvs \<Rightarrow> Inr (case map_of (rev kvs) k of None \<Rightarrow> dflt | Some v \<Rightarrow> v)
      | _ \<Rightarrow> Inl AttributeError)"

text \<open>
  The outcome of \<open>requests.get(url)\<close>: the call raises on a transport failure, or returns
  a response with a status code and a body. The body is \<open>None\<close> when it is not JSON, in
  which case \<open>response.json()\<close> raises.
\<close>

datatype http_result =
    HttpRaised error
  | HttpResponse int "json option"

text \<open>
  The body of the loop at lines 76-88 for one raw article: \<open>None\<close> when the article is
  skipped, the formatted article when it is appended.
\<close>

definition format_article :: "json \<Rightarrow> error + article option" where
  "format_article raw =
     (case dict_get raw ''title'' (JStr '''') of Inl e \<Rightarrow> Inl e | Inr t \<Rightarrow>
      case dict_get raw ''description'' (JStr '''') of Inl e \<Rightarrow> Inl e | Inr d \<Rightarrow>
      case dict_get raw ''source'' (JDict []) of Inl e \<Rightarrow> Inl e | Inr src \<Rightarrow>
      case dict_get src ''name'' (JStr '''') of Inl e \<Rightarrow> Inl e | Inr n \<Rightarrow>
      case dict_get raw ''url'' (JStr '''') of Inl e \<Rightarrow> Inl e | Inr u \<Rightarrow>
        if truthy t \<and> (truthy d \<or> truthy u)
        then Inr (Some \<lparr>title = t, description = d, source = n, url = u\<rparr>)
        else Inr None)"

text \<open>The loop itself: \<open>formatted_articles\<close> is the accumulator.\<close>

fun format_articles :: "json list \<Rightarrow> article list \<Rightarrow> error + article list" where
  "format_articles [] formatted_articles = Inr formatted_articles"
| "format_articles (raw # rest) formatted_articles =
     (case format_article raw of
        Inl e \<Rightarrow> Inl e
      | Inr None \<Rightarrow> format_articles rest formatted_articles
      | Inr (Some a) \<Rightarrow> format_articles rest (formatted_articles @ [a]))"

text \<open>
  \<open>for article in articles\<close> over a truthy value that is not a list: a dictionary yields
  its keys and a string its characters, on which \<open>.get\<close> raises \<open>AttributeError\<close>; a
  number or \<open>True\<close> is not iterable.
\<close>

definition iterate_articles :: "json \<Rightarrow> error + article list" where
  "iterate_articles articles =
     (case articles of
        JList raws \<Rightarrow> format_articles raws []
      | JDict kvs \<Rightarrow> Inl AttributeError
      | JStr s \<Rightarrow> Inl AttributeError
      | _ \<Rightarrow> Inl TypeError)"

text \<open>
  \<open>fetch_tech_news\<close> (twitter_bot5.py lines 53-94; the same text in twitter_bot2.py,
  twitter_bot4.py, twitter_bot.py and api/index.py). The result \<open>Inr None\<close> is Python's
  \<open>None\<close>, \<open>Inr (Some batch)\<close> the returned list, \<open>Inl e\<close> an exception leaving the
  function.
\<close>

definition fetch_tech_news :: "http_result \<Rightarrow> error + article list option" where
  "fetch_tech_news h =
     (case h of
        HttpRaised e \<Rightarrow> Inl e
      | HttpResponse status_code body \<Rightarrow>
          if status_code = 200 then
            (case body of
               None \<Rightarrow> Inl JSONDecodeError
             | Some data \<Rightarrow>
                 (case dict_get data ''articles'' (JList []) of
                    Inl e \<Rightarrow> Inl e
                  | Inr articles \<Rightarrow>
                      if \<not> truthy articles then Inr None
                      else (case iterate_articles articles of
                              Inl e \<Rightarrow> Inl e
                            | Inr formatted_articles \<Rightarrow> Inr (Some formatted_articles))))
          else Inr None)"

text \<open>
  The data model's admission rule read on a raw article of the NewsAPI answer: the fields
  as \<open>.get\<close> with its defaults returns them, the test "non-empty title and at least one
  of description and url", and the dictionary that is stored for an admitted article.
\<close>

definition raw_field :: "json \<Rightarrow> string \<Rightarrow> json" where
  "raw_field raw k = (case dict_get raw k (JStr '''') of Inr v \<Rightarrow> v | Inl e \<Rightarrow> JStr '''')"

definition raw_source_name :: "json \<Rightarrow> json" where
  "raw_source_name raw =
     (case dict_get raw ''source'' (JDict []) of
        Inr src \<Rightarrow> (case dict_get src ''name'' (JStr '''') of Inr n \<Rightarrow> n | Inl e \<Rightarrow> JStr '''')
      | Inl e \<Rightarrow> JStr '''')"

definition raw_admissible :: "json \<Rightarrow> bool" where
  "raw_admissible raw \<longleftrightarrow>
     truthy (raw_field raw ''title'') \<and>
     (truthy (raw_field raw ''description'') \<or> truthy (raw_field raw ''url''))"

definition formatted :: "json \<Rightarrow> article" where
  "formatted raw =
     \<lparr>title = raw_field raw ''title'', description = raw_field raw ''description'',
      source = raw_source_name raw, url = raw_field raw ''url''\<rparr>"

section \<open>Session state, environment and events\<close>

text \<open>
  The globals of twitter_bot5.py. \<open>current_articles\<close> starts as the empty list and
  becomes \<open>None\<close> when a fetch returns \<open>None\<close>; both are falsy. Timestamps are the values
  of \<open>time.time()\<close>, taken as real numbers.
\<close>

record session =
  current_articles :: "article list option"
  used_indices :: "nat list"
  current_article :: "article option"
  current_tweet :: "string option"
  start_time :: "real option"
  last_activity_time :: "real option"

definition initial_session :: session where
  "initial_session =
     \<lparr>current_articles = Some [], used_indices = [], current_article = None,
      current_tweet = None, start_time = None, last_activity_time = None\<rparr>"

text \<open>
  What the outside world answers during the handling of one event: the clock at the
  handler's first statement, the clock when \<open>handle_message\<close> has gone on into
  \<open>tweet_command\<close> (line 236 reached from line 326), the clock at the end of
  \<open>tweet_command\<close> (line 295), the two possible NewsAPI requests (lines 242 and 253), the
  two possible random draws (lines 250 and 255), the result of \<open>generate_tweet_text\<close>
  (a string, \<open>None\<close>, or an exception from the HTTP call) and the result of \<open>post_tweet\<close>,
  which catches the publisher's exceptions and returns a flag with a message. Sending a
  reply and writing the draft file are taken to succeed.
\<close>

record env =
  clock :: real
  clock_new :: real
  clock_end :: real
  news1 :: http_result
  news2 :: http_result
  rand1 :: nat
  rand2 :: nat
  gemini :: "error + string option"
  twitter :: "bool \<times> string"

datatype timer_action = ForceExit | CheckInactivity

datatype notice = InactivityShutdown

datatype event =
    Reply reply
  | FetchNews
  | GenerateDraft article
  | PostTweet string
  | WriteDraft article string
  | StartTimer real timer_action
  | Notify notice
  | ProcessExit

text \<open>
  A handler ends with the globals as it left them, the effects it performed in order,
  and the exception that left it, if any. Assignments made before an exception stay.
\<close>

type_synonym outcome = "session \<times> event list \<times> error option"

definition batch_present :: "article list option \<Rightarrow> bool" where
  "batch_present b = (case b of None \<Rightarrow> False | Some xs \<Rightarrow> xs \<noteq> [])"

definition update_activity_timestamp :: "real \<Rightarrow> session \<Rightarrow> session" where
  "update_activity_timestamp now s = s\<lparr>last_activity_time := Some now\<rparr>"

section \<open>Telegram handlers\<close>

definition start :: "env \<Rightarrow> session \<Rightarrow> outcome" where
  "start e s = (update_activity_timestamp (clock e) s, [Reply Welcome], None)"

definition help_command :: "env \<Rightarrow> session \<Rightarrow> outcome" where
  "help_command e s = (update_activity_timestamp (clock e) s, [Reply HelpText], None)"

text \<open>Lines 261-295 of \<open>tweet_command\<close>: record the index, generate, preview, save.\<close>

definition draft_phase ::
  "env \<Rightarrow> session \<Rightarrow> event list \<Rightarrow> nat \<Rightarrow> reply \<Rightarrow> article list \<Rightarrow> outcome" where
  "draft_phase e s tr selected_index article_info articles =
     (let s1 = s\<lparr>used_indices := used_indices s @ [selected_index]\<rparr>;
          art = articles ! selected_index;
          s2 = s1\<lparr>current_article := Some art\<rparr>;
          tr1 = tr @ [Reply article_info, Reply GeneratingTweet, GenerateDraft art]
      in case gemini e of
           Inl err \<Rightarrow> (s2, tr1, Some err)
         | Inr t \<Rightarrow>
             (let s3 = s2\<lparr>current_tweet := t\<rparr> in
              case t of
                None \<Rightarrow> (s3, tr1 @ [Reply GenerateFailed], None)
              | Some text \<Rightarrow>
                  if text = [] then (s3, tr1 @ [Reply GenerateFailed], None)
                  else (update_activity_timestamp (clock_end e) s3,
                        tr1 @ [Reply (TweetPreview text), WriteDraft art text], None)))"

text \<open>
  Lines 250-259: select, and on exhaustion fetch again and select once more. The second
  \<open>select_article\<close> receives whatever the fetch returned; on \<open>None\<close> its \<open>len(articles)\<close>
  raises \<open>TypeError\<close>.
\<close>

definition select_phase :: "env \<Rightarrow> session \<Rightarrow> event list \<Rightarrow> outcome" where
  "select_phase e s tr =
     (case current_articles s of
        None \<Rightarrow> (s, tr, Some TypeError)
      | Some articles \<Rightarrow>
          (case select_article articles (used_indices s) (rand1 e) of
             Some (i, info) \<Rightarrow> draft_phase e s tr i info articles
           | None \<Rightarrow>
               (let tr1 = tr @ [Reply AllUsedRefetching, FetchNews] in
                case fetch_tech_news (news2 e) of
                  Inl err \<Rightarrow> (s, tr1, Some err)
                | Inr r \<Rightarrow>
                    (let s1 = s\<lparr>current_articles := r, used_indices := []\<rparr> in
                     case r of
                       None \<Rightarrow> (s1, tr1, Some TypeError)
                     | Some articles' \<Rightarrow>
                         (case select_article articles' [] (rand2 e) of
                            None \<Rightarrow> (s1, tr1 @ [Reply FetchNewFailed], None)
                          | Some (i, info) \<Rightarrow> draft_phase e s1 tr1 i info articles')))))"

text \<open>\<open>tweet_command\<close> (lines 231-295).\<close>

definition tweet_command :: "env \<Rightarrow> session \<Rightarrow> outcome" where
  "tweet_command e s0 =
     (let s = update_activity_timestamp (clock e) s0;
          tr = [Reply LookingForNews]
      in if \<not> batch_present (current_articles s) then
           (case fetch_tech_news (news1 e) of
              Inl err \<Rightarrow> (s, tr @ [FetchNews], Some err)
            | Inr r \<Rightarrow>
                (let s1 = s\<lparr>current_articles := r, used_indices := []\<rparr> in
                 if \<not> batch_present r
                 then (s1, tr @ [FetchNews, Reply FetchFailed], None)
                 else select_phase e s1 (tr @ [FetchNews])))
         else select_phase e s tr)"

text \<open>
  \<open>str.lower()\<close> restricted to what the comparisons with \<open>post\<close>, \<open>new\<close> and \<open>exit\<close> can
  see: ASCII capitals are mapped to small letters, every other byte is left alone.
\<close>

definition lower_char :: "char \<Rightarrow> char" where
  "lower_char c =
     (case map_of (zip ''ABCDEFGHIJKLMNOPQRSTUVWXYZ'' ''abcdefghijklmnopqrstuvwxyz'') c of
        Some l \<Rightarrow> l
      | None \<Rightarrow> c)"

definition lower :: "string \<Rightarrow> string" where
  "lower s = map lower_char s"

text \<open>\<open>handle_message\<close> (lines 302-339); \<open>msg\<close> is \<open>update.message.text\<close>.\<close>

definition handle_message :: "env \<Rightarrow> string \<Rightarrow> session \<Rightarrow> outcome" where
  "handle_message e msg s0 =
     (let s = update_activity_timestamp (clock e) s0 in
      case current_tweet s of
        None \<Rightarrow> (s, [Reply UseTweetFirst], None)
      | Some draft \<Rightarrow>
          if draft = [] then (s, [Reply UseTweetFirst], None)
          else
            (let text = lower msg in
             if text = ''post'' then
               (case twitter e of (success, message) \<Rightarrow>
                  (let tr = [Reply PostingTweet, PostTweet draft, Reply (PostResult message)] in
                   if success
                   then (s\<lparr>current_tweet := None\<rparr>,
                         tr @ [Reply PostedShuttingDown, StartTimer 2 ForceExit], None)
                   else (s, tr, None)))
             else if text = ''new'' then
               (case tweet_command (e\<lparr>clock := clock_new e\<rparr>) s of
                  (s', tr, ex) \<Rightarrow> (s', Reply LookingForNewArticle # tr, ex))
             else if text = ''exit'' then
               (s\<lparr>current_tweet := None\<rparr>, [Reply Cancelled, StartTimer 2 ForceExit], None)
             else (s, [Reply UsageHint], None)))"

text \<open>
  The updates that reach the application (lines 416-421): the three registered commands,
  any other command (no handler is registered for it), a text message that is not a
  command, and the firing of a \<open>threading.Timer\<close> that was started with \<open>force_exit\<close>.
\<close>

datatype update =
    CmdStart
  | CmdHelp
  | CmdTweet
  | CmdOther
  | TextMessage string
  | ExitTimerFires

definition dispatch :: "env \<Rightarrow> update \<Rightarrow> session \<Rightarrow> outcome" where
  "dispatch e u s =
     (case u of
        CmdStart \<Rightarrow> start e s
      | CmdHelp \<Rightarrow> help_command e s
      | CmdTweet \<Rightarrow> tweet_command e s
      | TextMessage msg \<Rightarrow> handle_message e msg s
      | _ \<Rightarrow> (s, [], None))"

text \<open>
  The running process: its globals, whether a \<open>force_exit\<close> timer has been started, and
  whether \<open>os._exit\<close> has run. Updates are handled one after the other, each with its own
  environment, and the dispatcher goes on to the next update after a handler has raised.
  When the timer fires is decided by the order of the updates: before it fires the
  process handles whatever arrives, once it has fired nothing is handled any more. A
  handler that has begun is taken to finish.
\<close>

record process =
  globals :: session
  exit_pending :: bool
  exited :: bool

fun run_updates :: "(env \<times> update) list \<Rightarrow> process \<Rightarrow> process \<times> event list" where
  "run_updates [] p = (p, [])"
| "run_updates ((e, u) # rest) p =
     (if exited p then (p, [])
      else if u = ExitTimerFires then
        (if exit_pending p then (p\<lparr>exited := True\<rparr>, [ProcessExit])
         else run_updates rest p)
      else
        (case dispatch e u (globals p) of
           (s', tr, ex) \<Rightarrow>
             (case run_updates rest
                     (p\<lparr>globals := s',
                        exit_pending := exit_pending p \<or> StartTimer 2 ForceExit \<in> set tr\<rparr>) of
                (p', tr') \<Rightarrow> (p', tr @ tr'))))"

text \<open>
  What the handlers other than \<open>tweet_command\<close> send while no draft is held: the fixed
  answer of /start and /help, and for a text message the prompt to use /tweet first.
\<close>

definition idle_replies :: "update \<Rightarrow> event list" where
  "idle_replies u =
     (case u of
        CmdStart \<Rightarrow> [Reply Welcome]
      | CmdHelp \<Rightarrow> [Reply HelpText]
      | TextMessage msg \<Rightarrow> [Reply UseTweetFirst]
      | _ \<Rightarrow> [])"

text \<open>
  The used list as it stands when a selection succeeds (line 261): the session's list
  when the batch held still has an unused index, the empty list otherwise, because a
  fetch has then come first (lines 243 and 254).
\<close>

definition used_before_selection :: "session \<Rightarrow> nat list" where
  "used_before_selection s =
     (case current_articles s of
        None \<Rightarrow> []
      | Some held \<Rightarrow>
          if available_articles held (used_indices s) = [] then [] else used_indices s)"

section \<open>Command-line variant\<close>

text \<open>
  The locals of \<open>main\<close> in twitter_bot2.py that live across iterations of its
  \<open>while True\<close> loop, and the three ways an iteration ends.
\<close>

record cli_state =
  cli_articles :: "article list option"
  cli_used_indices :: "nat list"

datatype cli_next = Continue | Break | Return

type_synonym cli_outcome = "cli_state \<times> event list \<times> (error + cli_next)"

text \<open>
  Lines 190-236: mark the index as used, generate, save, ask. \<open>approval\<close> is the line read
  by \<open>input\<close>; console output is not recorded.
\<close>

definition cli_draft ::
  "env \<Rightarrow> string \<Rightarrow> cli_state \<Rightarrow> event list \<Rightarrow> nat \<Rightarrow> article list \<Rightarrow> cli_outcome" where
  "cli_draft e approval st tr selected_index articles =
     (let st1 = st\<lparr>cli_used_indices := cli_used_indices st @ [selected_index]\<rparr>;
          selected_article = articles ! selected_index;
          tr1 = tr @ [GenerateDraft selected_article]
      in case gemini e of
           Inl err \<Rightarrow> (st1, tr1, Inl err)
         | Inr None \<Rightarrow> (st1, tr1, Inr Continue)
         | Inr (Some tweet_text) \<Rightarrow>
             if tweet_text = [] then (st1, tr1, Inr Continue)
             else
               (let tr2 = tr1 @ [WriteDraft selected_article tweet_text];
                    choice = lower approval
                in if choice = ''post'' then (st1, tr2 @ [PostTweet tweet_text], Inr Break)
                   else if choice = ''new'' then (st1, tr2, Inr Continue)
                   else if choice = ''exit'' then (st1, tr2, Inr Break)
                   else (st1, tr2, Inr Continue)))"

text \<open>
  One iteration of the loop (lines 177-236). After a refetch the batch is non-empty and
  nothing is used, so the second selection returns an index; were it \<open>None\<close>, the
  subscript \<open>articles[None]\<close> would raise \<open>TypeError\<close>.
\<close>

definition main_loop_body :: "env \<Rightarrow> string \<Rightarrow> cli_state \<Rightarrow> cli_outcome" where
  "main_loop_body e approval st =
     (case cli_articles st of
        None \<Rightarrow> (st, [], Inl TypeError)
      | Some articles \<Rightarrow>
          (case select_article_cli articles (cli_used_indices st) (rand1 e) of
             Some i \<Rightarrow> cli_draft e approval st [] i articles
           | None \<Rightarrow>
               (case fetch_tech_news (news2 e) of
                  Inl err \<Rightarrow> (st, [FetchNews], Inl err)
                | Inr None \<Rightarrow> (st\<lparr>cli_articles := None\<rparr>, [FetchNews], Inr Return)
                | Inr (Some articles') \<Rightarrow>
                    if articles' = []
                    then (st\<lparr>cli_articles := Some articles'\<rparr>, [FetchNews], Inr Return)
                    else
                      (let st1 = st\<lparr>cli_articles := Some articles', cli_used_indices := []\<rparr> in
                       case select_article_cli articles' [] (rand2 e) of
                         None \<Rightarrow> (st1, [FetchNews], Inl TypeError)
                       | Some i \<Rightarrow> cli_draft e approval st1 [FetchNews] i articles'))))"

text \<open>The same for the loop of twitter_bot2.py (lines 179-191).\<close>

definition cli_used_before_selection :: "cli_state \<Rightarrow> nat list" where
  "cli_used_before_selection st =
     (case cli_articles st of
        None \<Rightarrow> []
      | Some held \<Rightarrow>
          if available_articles held (cli_used_indices st) = [] then []
          else cli_used_indices st)"

section \<open>Inactivity watchdog\<close>

definition TIMEOUT_SECONDS :: real where
  "TIMEOUT_SECONDS = 15 * 60"

text \<open>
  \<open>check_inactivity_timeout\<close> (lines 364-384). \<open>last_activity_time if last_activity_time
  else start_time\<close> tests truthiness: \<open>None\<close> and \<open>0.0\<close> both fall back to the start time.
  The notification is attempted and its failure swallowed; \<open>force_exit\<close> ends the process.
\<close>

definition time_set :: "real option \<Rightarrow> bool" where
  "time_set t = (case t of None \<Rightarrow> False | Some x \<Rightarrow> x \<noteq> 0)"

definition check_inactivity_timeout :: "real \<Rightarrow> session \<Rightarrow> outcome" where
  "check_inactivity_timeout current_time s =
     (case (if time_set (last_activity_time s) then last_activity_time s else start_time s) of
        None \<Rightarrow> (s, [], Some TypeError)
      | Some reference_time \<Rightarrow>
          (let elapsed_time = current_time - reference_time in
           if elapsed_time \<ge> TIMEOUT_SECONDS
           then (s, [Notify InactivityShutdown, ProcessExit], None)
           else (s, [StartTimer 30 CheckInactivity], None)))"

section \<open>Sample inputs\<close>

text \<open>Three formatted articles as NewsAPI data produces them; the first has no description.\<close>

definition sample_a :: article where
  "sample_a = \<lparr>title = JStr ''Chip news'', description = JNull, source = JStr ''Wire'',
     url = JStr ''https://example.org/a''\<rparr>"

definition sample_b :: article where
  "sample_b = \<lparr>title = JStr ''Phone news'', description = JStr ''A new phone'',
     source = JStr ''Wire'', url = JStr ''''\<rparr>"

definition sample_c :: article where
  "sample_c = \<lparr>title = JStr ''Cloud news'', description = JStr ''A new region'',
     source = JStr ''Daily'', url = JStr ''https://example.org/c''\<rparr>"

text \<open>
  A session that holds the three sample articles with nothing used and no draft, as after
  a first successful fetch; the same session with a draft awaiting approval. The process
  started at time 1000.
\<close>

definition sample_session :: session where
  "sample_session =
     \<lparr>current_articles = Some [sample_a, sample_b, sample_c], used_indices = [],
      current_article = None, current_tweet = None,
      start_time = Some 1000, last_activity_time = Some 1000\<rparr>"

definition drafted_session :: session where
  "drafted_session =
     sample_session\<lparr>used_indices := [2], current_article := Some sample_c,
       current_tweet := Some ''Cloud grows''\<rparr>"

text \<open>
  An environment at time 1200 in which the news source is unreachable, the draft
  generator returns \<open>None\<close> and the publisher refuses; and one in which all three work.
\<close>

definition failing_env :: env where
  "failing_env =
     \<lparr>clock = 1200, clock_new = 1200.5, clock_end = 1201,
      news1 = HttpResponse 500 None, news2 = HttpResponse 500 None,
      rand1 = 4, rand2 = 0, gemini = Inr None, twitter = (False, ''refused'')\<rparr>"

definition sample_news :: json where
  "sample_news =
     JDict [(''status'', JStr ''ok''),
       (''articles'', JList
          [JDict [(''title'', JStr ''Chip news''), (''description'', JNull),
                  (''source'', JDict [(''name'', JStr ''Wire'')]),
                  (''url'', JStr ''https://example.org/a'')],
           JDict [(''title'', JStr ''''), (''description'', JStr ''No headline''),
                  (''url'', JStr ''https://example.org/x'')],
           JDict [(''title'', JStr ''Bare headline''), (''description'', JNull)]])]"

definition working_env :: env where
  "working_env =
     \<lparr>clock = 1200, clock_new = 1200.5, clock_end = 1203,
      news1 = HttpResponse 200 (Some sample_news), news2 = HttpResponse 200 (Some sample_news),
      rand1 = 4, rand2 = 0, gemini = Inr (Some ''Chips ahead''), twitter = (True, ''posted'')\<rparr>"

text \<open>
  A NewsAPI answer whose three raw articles are all admitted and give the three sample
  articles; the session as \<open>main\<close> leaves it before the first update; the session with a
  draft after every index of the batch has been used; and an environment in which the
  news source answers with the three articles while the draft generator returns \<open>None\<close>.
\<close>

definition full_news :: json where
  "full_news =
     JDict [(''status'', JStr ''ok''),
       (''articles'', JList
          [JDict [(''title'', JStr ''Chip news''), (''description'', JNull),
                  (''source'', JDict [(''name'', JStr ''Wire'')]),
                  (''url'', JStr ''https://example.org/a'')],
           JDict [(''title'', JStr ''Phone news''), (''description'', JStr ''A new phone''),
                  (''source'', JDict [(''name'', JStr ''Wire'')]),
                  (''url'', JStr '''')],
           JDict [(''title'', JStr ''Cloud news''), (''description'', JStr ''A new region''),
                  (''source'', JDict [(''name'', JStr ''Daily'')]),
                  (''url'', JStr ''https://example.org/c'')]])]"

definition started_session :: session where
  "started_session = initial_session\<lparr>start_time := Some 1000, last_activity_time := Some 1000\<rparr>"

definition exhausted_session :: session where
  "exhausted_session = drafted_session\<lparr>used_indices := [1, 0, 2]\<rparr>"

definition no_draft_env :: env where
  "no_draft_env =
     failing_env\<lparr>news1 := HttpResponse 200 (Some full_news),
       news2 := HttpResponse 200 (Some full_news)\<rparr>"

section \<open>Properties of the selection policy\<close>

lemma set_available_articles:
  "set (available_articles articles used) = {i. i < length articles \<and> i \<notin> set used}"
  by (auto simp: available_articles_def)

lemma available_articles_empty_iff:
  "available_articles articles used = [] \<longleftrightarrow> (\<forall>i<length articles. i \<in> set used)"
proof -
  have "available_articles articles used = [] \<longleftrightarrow> set (available_articles articles used) = {}"
    by simp
  also have "\<dots> \<longleftrightarrow> (\<forall>i<length articles. i \<in> set used)"
    unfolding set_available_articles by blast
  finally show ?thesis .
qed

lemma random_choice_mem: "seq \<noteq> [] \<Longrightarrow> random_choice r seq \<in> set seq"
  by (simp add: random_choice_def)

lemma select_article_None_iff:
  "select_article articles used r = None \<longleftrightarrow> (\<forall>i<length articles. i \<in> set used)"
  by (simp add: select_article_def Let_def available_articles_empty_iff)

lemma select_article_Some:
  assumes "select_article articles used r = Some (i, info)"
  shows "i \<in> set (available_articles articles used)"
    and "info = ArticleInfo (i + 1) (length articles) (articles ! i)"
  using assms
  by (auto simp: select_article_def Let_def random_choice_mem split: if_splits)

lemma select_article_cli_eq:
  "select_article_cli articles used r = map_option fst (select_article articles used r)"
  by (simp add: select_article_cli_def select_article_def Let_def)

text \<open>
  Claim C1. For every batch and every list of used indices, \<open>select_article\<close> returns
  \<open>None\<close> exactly when every index of the batch is used; otherwise it returns an index
  below the batch length that is not used, taken from the remaining indices. This holds
  for both variants of the function and for every random draw.
\<close>

theorem select_article_correct:
  "(select_article articles used r = None \<longleftrightarrow> (\<forall>i<length articles. i \<in> set used)) \<and>
   (select_article_cli articles used r = None \<longleftrightarrow> (\<forall>i<length articles. i \<in> set used)) \<and>
   (\<forall>i info. select_article articles used r = Some (i, info) \<longrightarrow>
        i < length articles \<and> i \<notin> set used \<and> i \<in> set (available_articles articles used)) \<and>
   (\<forall>i. select_article_cli articles used r = Some i \<longrightarrow>
        i < length articles \<and> i \<notin> set used \<and> i \<in> set (available_articles articles used))"
proof (intro conjI allI impI)
  show "select_article articles used r = None \<longleftrightarrow> (\<forall>i<length articles. i \<in> set used)"
    by (rule select_article_None_iff)
  show "select_article_cli articles used r = None \<longleftrightarrow> (\<forall>i<length articles. i \<in> set used)"
    by (simp add: select_article_cli_eq select_article_None_iff)
next
  fix i info
  assume "select_article articles used r = Some (i, info)"
  then have mem: "i \<in> set (available_articles articles used)"
    by (rule select_article_Some)
  then show "i < length articles" "i \<notin> set used" "i \<in> set (available_articles articles used)"
    by (simp_all add: set_available_articles)
next
  fix i
  assume "select_article_cli articles used r = Some i"
  then obtain info where "select_article articles used r = Some (i, info)"
    by (auto simp: select_article_cli_eq)
  then have mem: "i \<in> set (available_articles articles used)"
    by (rule select_article_Some)
  then show "i < length articles" "i \<notin> set used" "i \<in> set (available_articles articles used)"
    by (simp_all add: set_available_articles)
qed

lemmas select_eval = select_article_def select_article_cli_def available_articles_def random_choice_def upt_rec

text \<open>The selection at a batch of two with index 0 used, and with both used.\<close>

theorem select_article_correct_witness:
  "select_article [sample_a, sample_b] [0] 7 = Some (1, ArticleInfo 2 2 sample_b) \<and>
   select_article_cli [sample_a, sample_b] [0] 7 = Some 1 \<and>
   (1::nat) < length [sample_a, sample_b] \<and> (1::nat) \<notin> set [0] \<and>
   select_article [sample_a, sample_b] [1, 0] 7 = None \<and>
   select_article_cli [sample_a, sample_b] [1, 0] 7 = None"
  using select_article_correct [of "[sample_a, sample_b]" "[0]" 7]
    select_article_correct [of "[sample_a, sample_b]" "[1, 0]" 7]
  by (simp add: select_eval)

section \<open>Effect of the draft phase on the session\<close>

lemma draft_phase_fields:
  "current_articles (fst (draft_phase e s tr i info articles)) = current_articles s"
  "used_indices (fst (draft_phase e s tr i info articles)) = used_indices s @ [i]"
  "current_article (fst (draft_phase e s tr i info articles)) = Some (articles ! i)"
  "current_tweet (fst (draft_phase e s tr i info articles)) =
     (case gemini e of Inl err \<Rightarrow> current_tweet s | Inr t \<Rightarrow> t)"
  "start_time (fst (draft_phase e s tr i info articles)) = start_time s"
  "last_activity_time (fst (draft_phase e s tr i info articles)) =
     (case gemini e of
        Inr (Some text) \<Rightarrow> if text = [] then last_activity_time s else Some (clock_end e)
      | _ \<Rightarrow> last_activity_time s)"
  by (simp_all add: draft_phase_def Let_def update_activity_timestamp_def
      split: sum.splits option.splits)

section \<open>Selection without repeats\<close>

lemma select_repeatedly_distinct:
  "distinct used \<Longrightarrow> distinct (snd (select_repeatedly articles used rs))"
proof (induction rs arbitrary: used)
  case Nil
  then show ?case by simp
next
  case (Cons r rs)
  show ?case
  proof (cases "select_article articles used r")
    case None
    with Cons show ?thesis by (simp add: case_prod_beta)
  next
    case (Some p)
    obtain i info where p: "p = (i, info)" by (cases p)
    from Some p have "i \<in> set (available_articles articles used)"
      by (auto dest: select_article_Some(1))
    then have "i \<notin> set used" by (simp add: set_available_articles)
    with Cons.prems have "distinct (used @ [i])" by simp
    from Cons.IH [OF this] Some p show ?thesis by (simp add: case_prod_beta)
  qed
qed

lemma used_not_full:
  assumes "distinct used" "length used < n"
  shows "\<exists>i<n. i \<notin> set used"
proof (rule ccontr)
  assume "\<not> (\<exists>i<n. i \<notin> set used)"
  then have "{..<n} \<subseteq> set used" by auto
  then have "card {..<n} \<le> card (set used)" by (intro card_mono) auto
  with assms show False by (simp add: distinct_card)
qed

lemma used_full:
  assumes "distinct used" "set used \<subseteq> {..<n}" "length used = n"
  shows "set used = {..<n}"
proof (rule card_subset_eq)
  show "finite {..<n}" by simp
  show "set used \<subseteq> {..<n}" by fact
  show "card (set used) = card {..<n}" using assms by (simp add: distinct_card)
qed

lemma select_repeatedly_covers:
  assumes "distinct used" "set used \<subseteq> {..<length articles}"
    and "length used + length rs = length articles"
  shows "\<exists>is. select_repeatedly articles used rs = (map Some is, used @ is) \<and>
              distinct (used @ is) \<and> set (used @ is) = {..<length articles}"
  using assms
proof (induction rs arbitrary: used)
  case Nil
  then have "set used = {..<length articles}" by (intro used_full) simp_all
  with Nil show ?case by simp
next
  case (Cons r rs)
  then have "length used < length articles" by simp
  with Cons.prems(1) have "\<exists>i<length articles. i \<notin> set used" by (rule used_not_full)
  then have "select_article articles used r \<noteq> None"
    by (auto simp: select_article_None_iff)
  then obtain i info where sel: "select_article articles used r = Some (i, info)" by auto
  then have "i \<in> set (available_articles articles used)" by (rule select_article_Some(1))
  then have i: "i < length articles" "i \<notin> set used" by (simp_all add: set_available_articles)
  have "\<exists>is. select_repeatedly articles (used @ [i]) rs = (map Some is, (used @ [i]) @ is) \<and>
              distinct ((used @ [i]) @ is) \<and> set ((used @ [i]) @ is) = {..<length articles}"
    using Cons.prems i by (intro Cons.IH) auto
  then obtain js where js: "select_repeatedly articles (used @ [i]) rs = (map Some js, (used @ [i]) @ js)"
    "distinct ((used @ [i]) @ js)" "set ((used @ [i]) @ js) = {..<length articles}" by blast
  show ?case
  proof (intro exI conjI)
    show "select_repeatedly articles used (r # rs) = (map Some (i # js), used @ i # js)"
      using sel js(1) by simp
    show "distinct (used @ i # js)" using js(2) by simp
    show "set (used @ i # js) = {..<length articles}" using js(3) by simp
  qed
qed

lemma select_repeatedly_append:
  "select_repeatedly articles used (rs @ rs') =
     (case select_repeatedly articles used rs of
        (res, u) \<Rightarrow> (case select_repeatedly articles u rs' of (res', u') \<Rightarrow> (res @ res', u')))"
  by (induction rs arbitrary: used) (auto split: option.splits prod.splits)

text \<open>The same invariant for the used list that \<open>tweet_command\<close> keeps in the session.\<close>

lemma select_phase_distinct:
  assumes "distinct (used_indices s)"
  shows "distinct (used_indices (fst (select_phase e s tr)))"
proof -
  have fresh: "\<And>articles used r i info.
      select_article articles used r = Some (i, info) \<Longrightarrow> i \<notin> set used"
    using select_article_Some(1) by (fastforce simp: set_available_articles)
  show ?thesis
    using assms
    by (auto simp: select_phase_def Let_def draft_phase_fields
        split: option.splits sum.splits dest: fresh)
qed

lemma tweet_command_distinct:
  assumes "distinct (used_indices s)"
  shows "distinct (used_indices (fst (tweet_command e s)))"
proof -
  let ?s = "update_activity_timestamp (clock e) s"
  have d: "distinct (used_indices ?s)"
    using assms by (simp add: update_activity_timestamp_def)
  have d': "\<And>r. distinct (used_indices (?s\<lparr>current_articles := r, used_indices := []\<rparr>))"
    by simp
  show ?thesis
    using select_phase_distinct [OF d] select_phase_distinct [OF d'] d
    by (simp add: tweet_command_def Let_def split: sum.splits)
qed

text \<open>
  Claim C2. For a batch of size N, when the caller appends each returned index to the used
  list, N successive calls return N pairwise distinct indices that cover the batch and
  the call after them returns \<open>None\<close>. The used list never holds a duplicate, after any
  number of calls; \<open>tweet_command\<close>, which is such a caller, keeps the session's used list
  free of duplicates.
\<close>

theorem select_without_repeat:
  "(length rs = length articles \<longrightarrow>
      (\<exists>is. select_repeatedly articles [] (rs @ [r]) = (map Some is @ [None], is) \<and>
            distinct is \<and> set is = {..<length articles} \<and> length is = length articles)) \<and>
   distinct (snd (select_repeatedly articles [] rs')) \<and>
   (distinct (used_indices s) \<longrightarrow> distinct (used_indices (fst (tweet_command e s))))"
proof (intro conjI impI)
  assume len: "length rs = length articles"
  then have "\<exists>is. select_repeatedly articles [] rs = (map Some is, [] @ is) \<and>
              distinct ([] @ is) \<and> set ([] @ is) = {..<length articles}"
    by (intro select_repeatedly_covers) simp_all
  then obtain js where js: "select_repeatedly articles [] rs = (map Some js, js)"
    "distinct js" "set js = {..<length articles}" by auto
  then have last: "select_article articles js r = None"
    by (simp add: select_article_None_iff)
  have "length js = length articles"
    using js(2,3) distinct_card [of js] by simp
  with js last show "\<exists>is. select_repeatedly articles [] (rs @ [r]) = (map Some is @ [None], is) \<and>
            distinct is \<and> set is = {..<length articles} \<and> length is = length articles"
    by (simp add: select_repeatedly_append)
next
  show "distinct (snd (select_repeatedly articles [] rs'))"
    by (rule select_repeatedly_distinct) simp
next
  assume "distinct (used_indices s)"
  then show "distinct (used_indices (fst (tweet_command e s)))"
    by (rule tweet_command_distinct)
qed

text \<open>
  A batch of three: three draws give the indices 2, 0, 1 and the fourth call is exhausted.
  A /tweet on the session that has used index 2 adds index 0.
\<close>

theorem select_without_repeat_witness:
  "length [5, 6, 7 :: nat] = length [sample_a, sample_b, sample_c] \<and>
   select_repeatedly [sample_a, sample_b, sample_c] [] ([5, 6, 7] @ [8]) =
     ([Some 2, Some 0, Some 1, None], [2, 0, 1]) \<and>
   distinct (used_indices drafted_session) \<and>
   used_indices (fst (tweet_command failing_env drafted_session)) = [2, 0]"
proof -
  have d: "distinct (used_indices drafted_session)"
    by (simp add: drafted_session_def sample_session_def)
  have u: "used_indices (fst (tweet_command failing_env drafted_session)) = [2, 0]"
    by code_simp
  have run: "select_repeatedly [sample_a, sample_b, sample_c] [] ([5, 6, 7] @ [8]) =
     ([Some 2, Some 0, Some 1, None], [2, 0, 1])"
    by code_simp
  show ?thesis
    using select_without_repeat [of "[5, 6, 7]" "[sample_a, sample_b, sample_c]" 8 "[]"
        drafted_session failing_env] run d u
    by simp
qed

section \<open>Messages without a draft\<close>

text \<open>
  Claim C10. A text message handled while no draft is held (\<open>current_tweet\<close> is \<open>None\<close>)
  is answered with the instruction to use /tweet first and nothing else happens: the
  publisher and the draft generator are not called, and the session is as before
  except for the last-activity timestamp.
\<close>

theorem handle_message_without_draft:
  assumes "current_tweet s = None"
  shows "handle_message e msg s =
           (s\<lparr>last_activity_time := Some (clock e)\<rparr>, [Reply UseTweetFirst], None) \<and>
         PostTweet t \<notin> set (fst (snd (handle_message e msg s))) \<and>
         GenerateDraft a \<notin> set (fst (snd (handle_message e msg s)))"
  using assms by (simp add: handle_message_def update_activity_timestamp_def)

text \<open>The word \<open>post\<close> sent to a session that holds no draft.\<close>

theorem handle_message_without_draft_witness:
  "current_tweet sample_session = None \<and>
   handle_message failing_env ''post'' sample_session =
     (sample_session\<lparr>last_activity_time := Some 1200\<rparr>, [Reply UseTweetFirst], None)"
  using handle_message_without_draft [of sample_session failing_env "''post''"]
  by (simp add: sample_session_def failing_env_def)

section \<open>Activity tracking\<close>

lemma select_phase_activity:
  "last_activity_time (fst (select_phase e s tr)) = last_activity_time s \<or>
   last_activity_time (fst (select_phase e s tr)) = Some (clock_end e)"
  by (simp add: select_phase_def Let_def draft_phase_fields split: sum.splits option.splits)

lemma tweet_command_activity:
  "last_activity_time (fst (tweet_command e s)) = Some (clock e) \<or>
   last_activity_time (fst (tweet_command e s)) = Some (clock_end e)"
proof -
  let ?s = "update_activity_timestamp (clock e) s"
  have *: "last_activity_time ?s = Some (clock e)"
    by (simp add: update_activity_timestamp_def)
  show ?thesis
  proof (cases "batch_present (current_articles ?s)")
    case True
    then show ?thesis
      using select_phase_activity [of e ?s "[Reply LookingForNews]"] *
      by (simp add: tweet_command_def Let_def)
  next
    case False
    show ?thesis
    proof (cases "fetch_tech_news (news1 e)")
      case (Inl err)
      with False * show ?thesis by (simp add: tweet_command_def Let_def)
    next
      case (Inr r)
      let ?s1 = "?s\<lparr>current_articles := r, used_indices := []\<rparr>"
      have "last_activity_time ?s1 = Some (clock e)" using * by simp
      then show ?thesis
        using False Inr select_phase_activity [of e ?s1 "[Reply LookingForNews] @ [FetchNews]"]
        by (simp add: tweet_command_def Let_def)
    qed
  qed
qed

text \<open>
  Claim C6. Each of the four handlers (/start, /help, /tweet and a text message) leaves
  the last-activity timestamp at a clock reading taken during its own run: the reading at
  its first statement, or a later one taken inside \<open>tweet_command\<close> (at its start when
  reached through \<open>new\<close>, at its end for a completed draft). This holds for every
  outcome, also when the fetch, the generator or the publisher fails or an exception
  leaves the handler.
\<close>

theorem activity_timestamp_updated:
  "last_activity_time (fst (start e s)) = Some (clock e) \<and>
   last_activity_time (fst (help_command e s)) = Some (clock e) \<and>
   (last_activity_time (fst (tweet_command e s)) = Some (clock e) \<or>
    last_activity_time (fst (tweet_command e s)) = Some (clock_end e)) \<and>
   (last_activity_time (fst (handle_message e msg s)) = Some (clock e) \<or>
    last_activity_time (fst (handle_message e msg s)) = Some (clock_new e) \<or>
    last_activity_time (fst (handle_message e msg s)) = Some (clock_end e))"
proof (intro conjI)
  show "last_activity_time (fst (start e s)) = Some (clock e)"
    by (simp add: start_def update_activity_timestamp_def)
  show "last_activity_time (fst (help_command e s)) = Some (clock e)"
    by (simp add: help_command_def update_activity_timestamp_def)
  show "last_activity_time (fst (tweet_command e s)) = Some (clock e) \<or>
    last_activity_time (fst (tweet_command e s)) = Some (clock_end e)"
    by (rule tweet_command_activity)
  let ?s = "update_activity_timestamp (clock e) s"
  let ?e = "e\<lparr>clock := clock_new e\<rparr>"
  have new: "last_activity_time (fst (tweet_command ?e ?s)) = Some (clock_new e) \<or>
    last_activity_time (fst (tweet_command ?e ?s)) = Some (clock_end e)"
    using tweet_command_activity [of ?e ?s] by simp
  have *: "last_activity_time ?s = Some (clock e)"
    by (simp add: update_activity_timestamp_def)
  show "last_activity_time (fst (handle_message e msg s)) = Some (clock e) \<or>
    last_activity_time (fst (handle_message e msg s)) = Some (clock_new e) \<or>
    last_activity_time (fst (handle_message e msg s)) = Some (clock_end e)"
    using new *
    by (auto simp: handle_message_def Let_def case_prod_beta split: option.splits)
qed

text \<open>
  The four handlers on the sample sessions at time 1200, with a failing and with a working
  draft generator, and the message \<open>New\<close> that goes on into \<open>tweet_command\<close> half a second
  later.
\<close>

theorem activity_timestamp_updated_witness:
  "last_activity_time sample_session = Some 1000 \<and>
   last_activity_time (fst (start failing_env sample_session)) = Some 1200 \<and>
   last_activity_time (fst (help_command failing_env sample_session)) = Some 1200 \<and>
   last_activity_time (fst (tweet_command failing_env sample_session)) = Some 1200 \<and>
   last_activity_time (fst (tweet_command working_env sample_session)) = Some 1203 \<and>
   last_activity_time (fst (handle_message failing_env ''post'' drafted_session)) = Some 1200 \<and>
   last_activity_time (fst (handle_message failing_env ''New'' drafted_session)) = Some 1200.5"
proof -
  have t1: "last_activity_time (fst (tweet_command failing_env sample_session)) = Some 1200"
    by (simp add: tweet_command_def select_phase_def draft_phase_fields Let_def
        update_activity_timestamp_def batch_present_def sample_session_def failing_env_def
        select_eval)
  have t2: "last_activity_time (fst (tweet_command working_env sample_session)) = Some 1203"
    by (simp add: tweet_command_def select_phase_def draft_phase_fields Let_def
        update_activity_timestamp_def batch_present_def sample_session_def working_env_def
        select_eval)
  have t3: "last_activity_time (fst (handle_message failing_env ''post'' drafted_session)) = Some 1200"
    by (simp add: handle_message_def lower_def lower_char_def Let_def update_activity_timestamp_def
        drafted_session_def sample_session_def failing_env_def)
  have t4: "last_activity_time (fst (handle_message failing_env ''New'' drafted_session)) = Some 1200.5"
    by (simp add: handle_message_def lower_def lower_char_def Let_def update_activity_timestamp_def
        tweet_command_def select_phase_def draft_phase_fields batch_present_def
        drafted_session_def sample_session_def failing_env_def select_eval case_prod_beta)
  show ?thesis
    using activity_timestamp_updated [of failing_env sample_session "''post''"] t1 t2 t3 t4
    by (simp add: start_def help_command_def update_activity_timestamp_def
        sample_session_def failing_env_def)
qed

section \<open>Watchdog\<close>

text \<open>
  Claim C5. With the last-activity timestamp set, a tick of the watchdog ends the process
  if and only if the time since that timestamp is at least the timeout of 15 minutes.
  Below the timeout the tick does nothing but schedule the next check 30 seconds later.
  In both cases the session, and with it the timestamp, is what it was.
\<close>

theorem inactivity_check:
  assumes "last_activity_time s = Some t" and "t \<noteq> 0"
  shows "TIMEOUT_SECONDS = 15 * 60 \<and>
         (ProcessExit \<in> set (fst (snd (check_inactivity_timeout now s))) \<longleftrightarrow>
            now - t \<ge> TIMEOUT_SECONDS) \<and>
         (now - t < TIMEOUT_SECONDS \<longrightarrow>
            check_inactivity_timeout now s = (s, [StartTimer 30 CheckInactivity], None)) \<and>
         (now - t \<ge> TIMEOUT_SECONDS \<longrightarrow>
            check_inactivity_timeout now s = (s, [Notify InactivityShutdown, ProcessExit], None)) \<and>
         fst (check_inactivity_timeout now s) = s"
  using assms
  by (simp add: check_inactivity_timeout_def time_set_def Let_def TIMEOUT_SECONDS_def)

text \<open>Last activity at 1000: the tick at 1899 reschedules, the tick at 1900 ends the process.\<close>

theorem inactivity_check_witness:
  "last_activity_time drafted_session = Some 1000 \<and> (1000::real) \<noteq> 0 \<and>
   1899 - 1000 < TIMEOUT_SECONDS \<and>
   check_inactivity_timeout 1899 drafted_session =
     (drafted_session, [StartTimer 30 CheckInactivity], None) \<and>
   1900 - 1000 \<ge> TIMEOUT_SECONDS \<and>
   check_inactivity_timeout 1900 drafted_session =
     (drafted_session, [Notify InactivityShutdown, ProcessExit], None)"
  using inactivity_check [of drafted_session 1000 1899]
    inactivity_check [of drafted_session 1000 1900]
  by (simp add: drafted_session_def sample_session_def TIMEOUT_SECONDS_def)

section \<open>After a successful post\<close>

lemma dispatch_idle:
  assumes "current_tweet s = None" and "u \<noteq> CmdTweet"
  shows "fst (snd (dispatch e u s)) = idle_replies u"
    and "current_tweet (fst (dispatch e u s)) = None"
  using assms
  by (cases u; simp add: dispatch_def idle_replies_def start_def help_command_def
      handle_message_def update_activity_timestamp_def)+

lemma idle_replies_no_timer: "StartTimer d a \<notin> set (idle_replies u)"
  by (cases u) (simp_all add: idle_replies_def)

lemma idle_replies_no_post: "PostTweet t \<notin> set (idle_replies u)"
  by (cases u) (simp_all add: idle_replies_def)

lemma run_updates_idle:
  assumes "current_tweet (globals p) = None" and "exit_pending p" and "\<not> exited p"
    and "\<forall>eu\<in>set later. snd eu \<noteq> CmdTweet"
  shows "snd (run_updates later p) =
           concat (map (\<lambda>eu. idle_replies (snd eu))
                     (takeWhile (\<lambda>eu. snd eu \<noteq> ExitTimerFires) later)) @
           (if \<exists>eu\<in>set later. snd eu = ExitTimerFires then [ProcessExit] else []) \<and>
         current_tweet (globals (fst (run_updates later p))) = None"
  using assms
proof (induction later arbitrary: p)
  case Nil
  then show ?case by simp
next
  case (Cons eu later)
  obtain e u where eu: "eu = (e, u)" by (cases eu)
  show ?case
  proof (cases "u = ExitTimerFires")
    case True
    with Cons.prems eu show ?thesis by simp
  next
    case False
    from Cons.prems eu have nt: "u \<noteq> CmdTweet" by simp
    obtain s' tr ex where d: "dispatch e u (globals p) = (s', tr, ex)"
      by (cases "dispatch e u (globals p)")
    from dispatch_idle [OF Cons.prems(1) nt, of e] d
    have tr: "tr = idle_replies u" and s': "current_tweet s' = None" by simp_all
    let ?p = "p\<lparr>globals := s', exit_pending := exit_pending p \<or> StartTimer 2 ForceExit \<in> set tr\<rparr>"
    have "snd (run_updates later ?p) =
           concat (map (\<lambda>eu. idle_replies (snd eu))
                     (takeWhile (\<lambda>eu. snd eu \<noteq> ExitTimerFires) later)) @
           (if \<exists>eu\<in>set later. snd eu = ExitTimerFires then [ProcessExit] else []) \<and>
         current_tweet (globals (fst (run_updates later ?p))) = None"
      using Cons.prems s' by (intro Cons.IH) simp_all
    with False eu d tr Cons.prems(3) show ?thesis
      by (simp add: case_prod_beta)
  qed
qed

lemma run_updates_after_exit:
  assumes "exit_pending p" and "\<not> exited p"
  shows "exited (fst (run_updates (before @ [(e1, ExitTimerFires)]) p)) \<and>
         run_updates (before @ (e1, ExitTimerFires) # after) p =
           run_updates (before @ [(e1, ExitTimerFires)]) p"
  using assms
proof (induction before arbitrary: p)
  case Nil
  then show ?case by simp
next
  case (Cons eu before)
  obtain e u where eu: "eu = (e, u)" by (cases eu)
  show ?case
  proof (cases "u = ExitTimerFires")
    case True
    with Cons.prems eu show ?thesis by simp
  next
    case False
    obtain s' tr ex where d: "dispatch e u (globals p) = (s', tr, ex)"
      by (cases "dispatch e u (globals p)")
    let ?p = "p\<lparr>globals := s', exit_pending := exit_pending p \<or> StartTimer 2 ForceExit \<in> set tr\<rparr>"
    have "exited (fst (run_updates (before @ [(e1, ExitTimerFires)]) ?p)) \<and>
         run_updates (before @ (e1, ExitTimerFires) # after) ?p =
           run_updates (before @ [(e1, ExitTimerFires)]) ?p"
      using Cons.prems by (intro Cons.IH) simp_all
    with False eu d Cons.prems(2) show ?thesis
      by (simp add: case_prod_beta)
  qed
qed

text \<open>
  The session with a draft receives \<open>Post\<close> and publishes; the exit timer is pending but
  has not fired when /tweet and then \<open>post\<close> arrive: a new draft is made and the
  publisher is called a second time.
\<close>

theorem second_post_counterexample:
  "PostTweet ''Cloud grows'' \<in> set (snd (run_updates [(working_env, TextMessage ''Post'')]
      \<lparr>globals = drafted_session, exit_pending = False, exited = False\<rparr>)) \<and>
   exit_pending (fst (run_updates [(working_env, TextMessage ''Post'')]
      \<lparr>globals = drafted_session, exit_pending = False, exited = False\<rparr>)) \<and>
   PostTweet ''Chips ahead'' \<in> set (snd (run_updates
      [(working_env, CmdTweet), (working_env, TextMessage ''post'')]
      (fst (run_updates [(working_env, TextMessage ''Post'')]
         \<lparr>globals = drafted_session, exit_pending = False, exited = False\<rparr>))))"
  by code_simp

text \<open>
  Claim C7, as the code has it. When a draft is held, the message is \<open>post\<close> in any
  capitalisation and the publisher succeeds, the handler publishes the draft once, clears
  it and starts the timer that runs \<open>force_exit\<close>. Once that timer fires the process has
  exited and whatever arrives afterwards is not handled. Before it fires, as long as no
  /tweet command arrives, every update gets only its fixed answer (a text message the
  prompt to use /tweet first), the publisher is not called again and the draft stays
  cleared. A /tweet command that arrives before the timer fires is handled like any
  other, so the statement about the publisher does not extend to it.
\<close>

theorem post_success_then_exit:
  assumes "current_tweet (globals p) = Some draft" and "draft \<noteq> []"
    and "lower msg = ''post''" and "twitter e = (True, m)" and "\<not> exited p"
  shows "\<exists>s'.
          handle_message e msg (globals p) =
            (s', [Reply PostingTweet, PostTweet draft, Reply (PostResult m),
                  Reply PostedShuttingDown, StartTimer 2 ForceExit], None) \<and>
          current_tweet s' = None \<and>
          (\<forall>later.
             run_updates ((e, TextMessage msg) # later) p =
               (case run_updates later (p\<lparr>globals := s', exit_pending := True\<rparr>) of
                  (p', tr') \<Rightarrow>
                    (p', [Reply PostingTweet, PostTweet draft, Reply (PostResult m),
                          Reply PostedShuttingDown, StartTimer 2 ForceExit] @ tr'))) \<and>
          (\<forall>later. (\<forall>eu\<in>set later. snd eu \<noteq> CmdTweet) \<longrightarrow>
             snd (run_updates later (p\<lparr>globals := s', exit_pending := True\<rparr>)) =
               concat (map (\<lambda>eu. idle_replies (snd eu))
                         (takeWhile (\<lambda>eu. snd eu \<noteq> ExitTimerFires) later)) @
               (if \<exists>eu\<in>set later. snd eu = ExitTimerFires then [ProcessExit] else []) \<and>
             (\<forall>t. PostTweet t \<notin>
                    set (snd (run_updates later (p\<lparr>globals := s', exit_pending := True\<rparr>)))) \<and>
             current_tweet
               (globals (fst (run_updates later (p\<lparr>globals := s', exit_pending := True\<rparr>)))) =
               None) \<and>
          (\<forall>before e1 after.
             exited (fst (run_updates (before @ [(e1, ExitTimerFires)])
                            (p\<lparr>globals := s', exit_pending := True\<rparr>))) \<and>
             run_updates (before @ (e1, ExitTimerFires) # after)
                 (p\<lparr>globals := s', exit_pending := True\<rparr>) =
               run_updates (before @ [(e1, ExitTimerFires)])
                 (p\<lparr>globals := s', exit_pending := True\<rparr>))"
proof -
  let ?s' = "(globals p)\<lparr>last_activity_time := Some (clock e), current_tweet := None\<rparr>"
  let ?p' = "p\<lparr>globals := ?s', exit_pending := True\<rparr>"
  let ?tr = "[Reply PostingTweet, PostTweet draft, Reply (PostResult m),
                  Reply PostedShuttingDown, StartTimer 2 ForceExit]"
  have h: "handle_message e msg (globals p) = (?s', ?tr, None)"
    using assms by (simp add: handle_message_def update_activity_timestamp_def Let_def)
  have n: "current_tweet (globals ?p') = None" "exit_pending ?p'" "\<not> exited ?p'"
    using assms(5) by simp_all
  have run: "\<And>later. run_updates ((e, TextMessage msg) # later) p =
               (case run_updates later ?p' of (p', tr') \<Rightarrow> (p', ?tr @ tr'))"
    using h assms(5) by (simp add: dispatch_def)
  have idle: "\<And>later. (\<forall>eu\<in>set later. snd eu \<noteq> CmdTweet) \<longrightarrow>
             snd (run_updates later ?p') =
               concat (map (\<lambda>eu. idle_replies (snd eu))
                         (takeWhile (\<lambda>eu. snd eu \<noteq> ExitTimerFires) later)) @
               (if \<exists>eu\<in>set later. snd eu = ExitTimerFires then [ProcessExit] else []) \<and>
             (\<forall>t. PostTweet t \<notin> set (snd (run_updates later ?p'))) \<and>
             current_tweet (globals (fst (run_updates later ?p'))) = None"
  proof
    fix later :: "(env \<times> update) list"
    assume a: "\<forall>eu\<in>set later. snd eu \<noteq> CmdTweet"
    from run_updates_idle [OF n a]
    have c: "snd (run_updates later ?p') =
               concat (map (\<lambda>eu. idle_replies (snd eu))
                         (takeWhile (\<lambda>eu. snd eu \<noteq> ExitTimerFires) later)) @
               (if \<exists>eu\<in>set later. snd eu = ExitTimerFires then [ProcessExit] else [])"
      and t: "current_tweet (globals (fst (run_updates later ?p'))) = None" by simp_all
    have "\<forall>t. PostTweet t \<notin> set (snd (run_updates later ?p'))"
      unfolding c by (auto simp: idle_replies_no_post)
    with c t show "snd (run_updates later ?p') =
               concat (map (\<lambda>eu. idle_replies (snd eu))
                         (takeWhile (\<lambda>eu. snd eu \<noteq> ExitTimerFires) later)) @
               (if \<exists>eu\<in>set later. snd eu = ExitTimerFires then [ProcessExit] else []) \<and>
             (\<forall>t. PostTweet t \<notin> set (snd (run_updates later ?p'))) \<and>
             current_tweet (globals (fst (run_updates later ?p'))) = None"
      by blast
  qed
  have ex: "\<And>before e1 after.
             exited (fst (run_updates (before @ [(e1, ExitTimerFires)]) ?p')) \<and>
             run_updates (before @ (e1, ExitTimerFires) # after) ?p' =
               run_updates (before @ [(e1, ExitTimerFires)]) ?p'"
    by (rule run_updates_after_exit [OF n(2,3)])
  have "current_tweet ?s' = None" by simp
  with h run idle ex show ?thesis by blast
qed


text \<open>
  The message \<open>Post\<close> on the session with a draft, then \<open>post\<close> again and /help, then
  the timer, then one more \<open>post\<close> that is no longer handled.
\<close>

theorem post_success_then_exit_witness:
  "current_tweet (globals \<lparr>globals = drafted_session, exit_pending = False, exited = False\<rparr>) =
     Some ''Cloud grows'' \<and>
   lower ''Post'' = ''post'' \<and> twitter working_env = (True, ''posted'') \<and>
   snd (run_updates
          [(working_env, TextMessage ''Post''), (failing_env, TextMessage ''post''),
           (working_env, CmdHelp), (failing_env, ExitTimerFires),
           (working_env, TextMessage ''post'')]
          \<lparr>globals = drafted_session, exit_pending = False, exited = False\<rparr>) =
     [Reply PostingTweet, PostTweet ''Cloud grows'', Reply (PostResult ''posted''),
      Reply PostedShuttingDown, StartTimer 2 ForceExit,
      Reply UseTweetFirst, Reply HelpText, ProcessExit]"
proof -
  let ?p = "\<lparr>globals = drafted_session, exit_pending = False, exited = False\<rparr>"
  let ?later = "[(failing_env, TextMessage ''post''), (working_env, CmdHelp),
           (failing_env, ExitTimerFires), (working_env, TextMessage ''post'')]"
  have l: "lower ''Post'' = ''post''" by (simp add: lower_def lower_char_def)
  have d: "current_tweet (globals ?p) = Some ''Cloud grows''"
    by (simp add: drafted_session_def sample_session_def)
  have w: "twitter working_env = (True, ''posted'')" by (simp add: working_env_def)
  have x: "\<not> exited ?p" by simp
  have run: "snd (run_updates ((working_env, TextMessage ''Post'') # ?later) ?p) =
     [Reply PostingTweet, PostTweet ''Cloud grows'', Reply (PostResult ''posted''),
      Reply PostedShuttingDown, StartTimer 2 ForceExit,
      Reply UseTweetFirst, Reply HelpText, ProcessExit]"
    by code_simp
  show ?thesis
    using post_success_then_exit [OF d _ l w x] run l d w
    by (simp del: run_updates.simps)
qed

section \<open>Admission into a batch\<close>

lemma format_article_Some:
  assumes "format_article raw = Inr (Some a)"
  shows "raw_admissible raw" and "a = formatted raw"
  using assms
  by (auto simp: format_article_def raw_admissible_def formatted_def raw_field_def
      raw_source_name_def split: sum.splits if_splits)

lemma format_article_None:
  assumes "format_article raw = Inr None"
  shows "\<not> raw_admissible raw"
  using assms
  by (auto simp: format_article_def raw_admissible_def raw_field_def
      split: sum.splits if_splits)

lemma format_articles_eq:
  "format_articles raws acc = Inr out \<Longrightarrow>
     out = acc @ map formatted (filter raw_admissible raws)"
proof (induction raws arbitrary: acc)
  case Nil
  then show ?case by simp
next
  case (Cons raw raws)
  show ?case
  proof (cases "format_article raw")
    case (Inl e)
    with Cons.prems show ?thesis by simp
  next
    case (Inr r)
    show ?thesis
    proof (cases r)
      case None
      with Inr have "\<not> raw_admissible raw" by (simp add: format_article_None)
      moreover from Cons.prems Inr None have "format_articles raws acc = Inr out" by simp
      ultimately show ?thesis using Cons.IH by simp
    next
      case (Some a)
      with Inr have "raw_admissible raw" "a = formatted raw"
        by (simp_all add: format_article_Some)
      moreover from Cons.prems Inr Some have "format_articles raws (acc @ [a]) = Inr out" by simp
      ultimately show ?thesis using Cons.IH [of "acc @ [a]"] by simp
    qed
  qed
qed

lemma fetch_tech_news_Some:
  assumes "fetch_tech_news h = Inr (Some batch)"
  shows "\<exists>data raws. h = HttpResponse 200 (Some data) \<and>
           dict_get data ''articles'' (JList []) = Inr (JList raws) \<and>
           format_articles raws [] = Inr batch"
  using assms
  by (auto simp: fetch_tech_news_def iterate_articles_def
      split: http_result.splits if_splits option.splits sum.splits json.splits)

text \<open>
  Claim C8. Every article of a batch returned by \<open>fetch_tech_news\<close> has a truthy title
  (for a string: a non-empty one) and a truthy description or a truthy url. The batch is,
  in order, the formatted form of exactly those raw articles of the answer that pass this
  test; the others are left out.
\<close>

theorem fetch_admits_only:
  assumes "fetch_tech_news h = Inr (Some batch)"
  shows "(\<forall>a\<in>set batch. truthy (title a) \<and> title a \<noteq> JStr '''' \<and>
                        (truthy (description a) \<or> truthy (url a))) \<and>
         (\<exists>data raws. h = HttpResponse 200 (Some data) \<and>
            dict_get data ''articles'' (JList []) = Inr (JList raws) \<and>
            batch = map formatted (filter raw_admissible raws))"
proof -
  from fetch_tech_news_Some [OF assms] obtain data raws where
    h: "h = HttpResponse 200 (Some data)"
    and a: "dict_get data ''articles'' (JList []) = Inr (JList raws)"
    and f: "format_articles raws [] = Inr batch" by blast
  from format_articles_eq [OF f]
  have b: "batch = map formatted (filter raw_admissible raws)" by simp
  have "\<forall>a\<in>set batch. truthy (title a) \<and> title a \<noteq> JStr '''' \<and>
                        (truthy (description a) \<or> truthy (url a))"
    unfolding b by (auto simp: raw_admissible_def formatted_def)
  with h a b show ?thesis by blast
qed

text \<open>
  Of the three raw articles of the sample answer only the first is admitted: the second
  has an empty title, the third neither description nor url.
\<close>

theorem fetch_admits_only_witness:
  "fetch_tech_news (HttpResponse 200 (Some sample_news)) = Inr (Some [sample_a]) \<and>
   truthy (title sample_a) \<and> truthy (url sample_a)"
proof -
  have run: "fetch_tech_news (HttpResponse 200 (Some sample_news)) = Inr (Some [sample_a])"
    by code_simp
  show ?thesis
    using fetch_admits_only [OF run] run by (simp add: sample_a_def)
qed

text \<open>
  The refetch after exhaustion: when it returns \<open>None\<close>, the second \<open>select_article\<close>
  raises, the reply of line 258 is not sent, and the exhausted batch is gone.
\<close>

lemma exhausted_refetch_failure:
  assumes "current_articles s = Some articles" and "articles \<noteq> []"
    and "select_article articles (used_indices s) (rand1 e) = None"
    and "fetch_tech_news (news2 e) = Inr None"
  shows "tweet_command e s =
           (s\<lparr>last_activity_time := Some (clock e), current_articles := None, used_indices := []\<rparr>,
            [Reply LookingForNews, Reply AllUsedRefetching, FetchNews], Some TypeError)"
  using assms
  by (simp add: tweet_command_def select_phase_def update_activity_timestamp_def
      batch_present_def Let_def)

section \<open>Failures of the adapters\<close>

lemma select_article_nonempty:
  assumes "select_article articles used r = Some (i, info)"
  shows "articles \<noteq> []"
  using select_article_Some(1) [OF assms] by (auto simp: set_available_articles)

lemma tweet_command_reaches_draft:
  assumes "current_articles s = Some articles"
    and "select_article articles (used_indices s) (rand1 e) = Some (i, info)"
  shows "tweet_command e s =
           draft_phase e (s\<lparr>last_activity_time := Some (clock e)\<rparr>)
             [Reply LookingForNews] i info articles"
  using assms select_article_nonempty [OF assms(2)]
  by (simp add: tweet_command_def select_phase_def update_activity_timestamp_def
      batch_present_def Let_def)

lemma main_loop_body_reaches_draft:
  assumes "cli_articles st = Some articles"
    and "select_article_cli articles (cli_used_indices st) (rand1 e) = Some i"
  shows "main_loop_body e approval st = cli_draft e approval st [] i articles"
  using assms by (simp add: main_loop_body_def)

lemma cli_draft_used:
  "cli_used_indices (fst (cli_draft e approval st tr i articles)) = cli_used_indices st @ [i]"
  by (simp add: cli_draft_def Let_def split: sum.splits option.splits)

text \<open>
  Every run of \<open>tweet_command\<close> that calls the draft generator, on whichever of its
  paths, and likewise every iteration of the command-line loop.
\<close>

lemma draft_phase_generates:
  "GenerateDraft a \<in> set (fst (snd (draft_phase e s tr i info articles))) \<longleftrightarrow>
     a = articles ! i \<or> GenerateDraft a \<in> set tr"
  by (auto simp: draft_phase_def Let_def split: sum.splits option.splits)

lemma draft_phase_raised:
  "snd (snd (draft_phase e s tr i info articles)) =
     (case gemini e of Inl err \<Rightarrow> Some err | Inr t \<Rightarrow> None)"
  by (simp add: draft_phase_def Let_def split: sum.splits option.splits)

lemma select_article_fresh:
  assumes "select_article articles used r = Some (i, info)"
  shows "i < length articles" and "i \<notin> set used" and "available_articles articles used \<noteq> []"
proof -
  have m: "i \<in> set (available_articles articles used)"
    using assms by (rule select_article_Some(1))
  then show "available_articles articles used \<noteq> []" by auto
  from m show "i < length articles" "i \<notin> set used"
    by (simp_all add: set_available_articles)
qed

lemma select_article_exhausted:
  "select_article articles used r = None \<Longrightarrow> available_articles articles used = []"
  by (simp add: select_article_def Let_def split: if_splits)

lemma select_phase_draft_effect:
  assumes "\<forall>a. GenerateDraft a \<notin> set tr"
    and "GenerateDraft a \<in> set (fst (snd (select_phase e s tr)))"
  shows "\<exists>articles i.
           current_articles (fst (select_phase e s tr)) = Some articles \<and>
           i < length articles \<and> a = articles ! i \<and>
           used_indices (fst (select_phase e s tr)) = used_before_selection s @ [i] \<and>
           i \<notin> set (used_before_selection s) \<and>
           current_article (fst (select_phase e s tr)) = Some a \<and>
           current_tweet (fst (select_phase e s tr)) =
             (case gemini e of Inl err \<Rightarrow> current_tweet s | Inr t \<Rightarrow> t) \<and>
           start_time (fst (select_phase e s tr)) = start_time s \<and>
           snd (snd (select_phase e s tr)) =
             (case gemini e of Inl err \<Rightarrow> Some err | Inr t \<Rightarrow> None)"
proof (cases "current_articles s")
  case None
  with assms show ?thesis by (simp add: select_phase_def)
next
  case (Some held)
  show ?thesis
  proof (cases "select_article held (used_indices s) (rand1 e)")
    case sel: (Some p)
    obtain i info where p: "p = (i, info)" by (cases p)
    have eq: "select_phase e s tr = draft_phase e s tr i info held"
      using Some sel p by (simp add: select_phase_def)
    from assms have a: "a = held ! i"
      unfolding eq by (simp add: draft_phase_generates)
    from select_article_fresh [OF sel [unfolded p]]
    have f: "i < length held" "i \<notin> set (used_indices s)"
      "available_articles held (used_indices s) \<noteq> []" by simp_all
    then have u: "used_before_selection s = used_indices s"
      using Some by (simp add: used_before_selection_def)
    show ?thesis
      unfolding eq using Some a f u
      by (simp add: draft_phase_fields draft_phase_raised split: sum.splits option.splits)
  next
    case sel: None
    then have u: "used_before_selection s = []"
      using Some by (simp add: used_before_selection_def select_article_exhausted)
    show ?thesis
    proof (cases "fetch_tech_news (news2 e)")
      case (Inl err)
      with assms Some sel show ?thesis by (simp add: select_phase_def)
    next
      case (Inr r)
      show ?thesis
      proof (cases r)
        case None
        with assms Some sel Inr show ?thesis by (simp add: select_phase_def)
      next
        case fetched: (Some articles)
        show ?thesis
        proof (cases "select_article articles [] (rand2 e)")
          case None
          with assms Some sel Inr fetched show ?thesis by (simp add: select_phase_def)
        next
          case sel2: (Some p)
          obtain i info where p: "p = (i, info)" by (cases p)
          let ?s1 = "s\<lparr>current_articles := Some articles, used_indices := []\<rparr>"
          let ?tr1 = "tr @ [Reply AllUsedRefetching, FetchNews]"
          have eq: "select_phase e s tr = draft_phase e ?s1 ?tr1 i info articles"
            using Some sel Inr fetched sel2 p by (simp add: select_phase_def)
          from assms have a: "a = articles ! i"
            unfolding eq by (simp add: draft_phase_generates)
          from select_article_fresh [OF sel2 [unfolded p]]
          have f: "i < length articles" by simp
          show ?thesis
            unfolding eq using a f u
            by (simp add: draft_phase_fields draft_phase_raised split: sum.splits option.splits)
        qed
      qed
    qed
  qed
qed

lemma tweet_command_draft_effect:
  assumes "GenerateDraft a \<in> set (fst (snd (tweet_command e s)))"
  shows "\<exists>articles i.
           current_articles (fst (tweet_command e s)) = Some articles \<and>
           i < length articles \<and> a = articles ! i \<and>
           used_indices (fst (tweet_command e s)) = used_before_selection s @ [i] \<and>
           i \<notin> set (used_before_selection s) \<and>
           current_article (fst (tweet_command e s)) = Some a \<and>
           current_tweet (fst (tweet_command e s)) =
             (case gemini e of Inl err \<Rightarrow> current_tweet s | Inr t \<Rightarrow> t) \<and>
           start_time (fst (tweet_command e s)) = start_time s \<and>
           snd (snd (tweet_command e s)) =
             (case gemini e of Inl err \<Rightarrow> Some err | Inr t \<Rightarrow> None)"
proof (cases "batch_present (current_articles s)")
  case True
  let ?s = "s\<lparr>last_activity_time := Some (clock e)\<rparr>"
  have eq: "tweet_command e s = select_phase e ?s [Reply LookingForNews]"
    using True by (simp add: tweet_command_def update_activity_timestamp_def)
  have u: "used_before_selection ?s = used_before_selection s"
    by (simp add: used_before_selection_def split: option.splits)
  from select_phase_draft_effect [of "[Reply LookingForNews]" a e ?s] assms u
  show ?thesis unfolding eq by (simp cong: sum.case_cong)
next
  case False
  then have u: "used_before_selection s = []"
    by (auto simp: used_before_selection_def batch_present_def available_articles_def
        split: option.splits)
  show ?thesis
  proof (cases "fetch_tech_news (news1 e)")
    case (Inl err)
    with assms False show ?thesis
      by (simp add: tweet_command_def update_activity_timestamp_def)
  next
    case (Inr r)
    show ?thesis
    proof (cases "batch_present r")
      case absent: False
      with assms False Inr show ?thesis
        by (simp add: tweet_command_def update_activity_timestamp_def)
    next
      case True
      let ?s = "s\<lparr>last_activity_time := Some (clock e), current_articles := r, used_indices := []\<rparr>"
      have eq: "tweet_command e s = select_phase e ?s [Reply LookingForNews, FetchNews]"
        using False Inr True by (simp add: tweet_command_def update_activity_timestamp_def)
      have u': "used_before_selection ?s = []"
        by (simp add: used_before_selection_def split: option.splits)
      from select_phase_draft_effect [of "[Reply LookingForNews, FetchNews]" a e ?s] assms u u'
      show ?thesis unfolding eq by (simp cong: sum.case_cong)
    qed
  qed
qed




lemma tweet_command_first_fetch:
  assumes "\<not> batch_present (current_articles s)"
    and "fetch_tech_news (news1 e) = Inr (Some articles)"
    and "select_article articles [] (rand1 e) = Some (i, info)"
  shows "tweet_command e s =
           draft_phase e
             (s\<lparr>last_activity_time := Some (clock e), current_articles := Some articles,
                used_indices := []\<rparr>)
             [Reply LookingForNews, FetchNews] i info articles"
  using assms select_article_nonempty [OF assms(3)]
  by (simp add: tweet_command_def select_phase_def update_activity_timestamp_def
      batch_present_def Let_def)

lemma tweet_command_refetch:
  assumes "current_articles s = Some held" and "held \<noteq> []"
    and "select_article held (used_indices s) (rand1 e) = None"
    and "fetch_tech_news (news2 e) = Inr (Some articles)"
    and "select_article articles [] (rand2 e) = Some (i, info)"
  shows "tweet_command e s =
           draft_phase e
             (s\<lparr>last_activity_time := Some (clock e), current_articles := Some articles,
                used_indices := []\<rparr>)
             [Reply LookingForNews, Reply AllUsedRefetching, FetchNews] i info articles"
  using assms
  by (simp add: tweet_command_def select_phase_def update_activity_timestamp_def
      batch_present_def Let_def)

lemma cli_draft_articles:
  "cli_articles (fst (cli_draft e approval st tr i articles)) = cli_articles st"
  by (simp add: cli_draft_def Let_def split: sum.splits option.splits)

lemma cli_draft_generates:
  "GenerateDraft a \<in> set (fst (snd (cli_draft e approval st tr i articles))) \<longleftrightarrow>
     a = articles ! i \<or> GenerateDraft a \<in> set tr"
  by (auto simp: cli_draft_def Let_def split: sum.splits option.splits)

lemma select_article_cli_fresh:
  assumes "select_article_cli articles used r = Some i"
  shows "i < length articles" and "i \<notin> set used" and "available_articles articles used \<noteq> []"
proof -
  from assms obtain info where "select_article articles used r = Some (i, info)"
    by (auto simp: select_article_cli_eq)
  from select_article_fresh [OF this]
  show "i < length articles" "i \<notin> set used" "available_articles articles used \<noteq> []"
    by simp_all
qed

lemma main_loop_body_refetch:
  assumes "cli_articles st = Some held"
    and "select_article_cli held (cli_used_indices st) (rand1 e) = None"
    and "fetch_tech_news (news2 e) = Inr (Some articles)"
    and "select_article_cli articles [] (rand2 e) = Some i"
  shows "main_loop_body e approval st =
           cli_draft e approval (st\<lparr>cli_articles := Some articles, cli_used_indices := []\<rparr>)
             [FetchNews] i articles"
  using assms select_article_cli_fresh(1) [OF assms(4)]
  by (auto simp: main_loop_body_def)

lemma main_loop_body_draft_effect:
  assumes "GenerateDraft a \<in> set (fst (snd (main_loop_body e approval st)))"
  shows "\<exists>articles i.
           cli_articles (fst (main_loop_body e approval st)) = Some articles \<and>
           i < length articles \<and> a = articles ! i \<and>
           cli_used_indices (fst (main_loop_body e approval st)) =
             cli_used_before_selection st @ [i] \<and>
           i \<notin> set (cli_used_before_selection st)"
proof (cases "cli_articles st")
  case None
  with assms show ?thesis by (simp add: main_loop_body_def)
next
  case (Some held)
  show ?thesis
  proof (cases "select_article_cli held (cli_used_indices st) (rand1 e)")
    case sel: (Some i)
    have eq: "main_loop_body e approval st = cli_draft e approval st [] i held"
      using Some sel by (rule main_loop_body_reaches_draft)
    from assms have a: "a = held ! i"
      unfolding eq by (simp add: cli_draft_generates)
    from select_article_cli_fresh [OF sel]
    have f: "i < length held" "i \<notin> set (cli_used_indices st)"
      "available_articles held (cli_used_indices st) \<noteq> []" by simp_all
    then have u: "cli_used_before_selection st = cli_used_indices st"
      using Some by (simp add: cli_used_before_selection_def)
    show ?thesis
      unfolding eq using Some a f u by (simp add: cli_draft_used cli_draft_articles)
  next
    case sel: None
    then have u: "cli_used_before_selection st = []"
      using Some
      by (simp add: cli_used_before_selection_def select_article_cli_def Let_def split: if_splits)
    show ?thesis
    proof (cases "fetch_tech_news (news2 e)")
      case (Inl err)
      with assms Some sel show ?thesis by (simp add: main_loop_body_def)
    next
      case (Inr r)
      show ?thesis
      proof (cases r)
        case None
        with assms Some sel Inr show ?thesis by (simp add: main_loop_body_def)
      next
        case fetched: (Some articles)
        show ?thesis
        proof (cases "select_article_cli articles [] (rand2 e)")
          case None
          with assms Some sel Inr fetched show ?thesis
            by (simp add: main_loop_body_def split: if_splits)
        next
          case sel2: (Some i)
          have eq: "main_loop_body e approval st =
              cli_draft e approval (st\<lparr>cli_articles := Some articles, cli_used_indices := []\<rparr>)
                [FetchNews] i articles"
            using Some sel Inr fetched sel2 by (intro main_loop_body_refetch) simp_all
          from assms have a: "a = articles ! i"
            unfolding eq by (simp add: cli_draft_generates)
          from select_article_cli_fresh [OF sel2] have f: "i < length articles" by simp
          show ?thesis
            unfolding eq using a f u by (simp add: cli_draft_used cli_draft_articles)
        qed
      qed
    qed
  qed
qed

text \<open>
  The first /tweet of a session, the news source answering with three articles and the
  draft generator returning \<open>None\<close>: index 1 is selected, is in the used list afterwards,
  and is no longer among the indices that \<open>select_article\<close> can return for the batch,
  which is the current one.
\<close>

theorem failed_draft_consumes_index_counterexample:
  "gemini no_draft_env = Inr None \<and>
   used_indices started_session = [] \<and>
   used_indices (fst (tweet_command no_draft_env started_session)) = [1] \<and>
   current_articles (fst (tweet_command no_draft_env started_session)) =
     Some [sample_a, sample_b, sample_c] \<and>
   available_articles [sample_a, sample_b, sample_c]
     (used_indices (fst (tweet_command no_draft_env started_session))) = [0, 2]"
  by code_simp

text \<open>
  Claim C3, as the code has it. In both interactive flows the selected index is appended
  to the used list before the draft generator is called, and it stays there whatever the
  generator returns. This holds on every path that reaches the generator: a selection
  from the batch held, the first fetch of a session, and the refetch after exhaustion.
  After a failed generation the index is therefore not among those that a later
  selection from the current batch can return.
\<close>

theorem index_used_before_draft:
  "(GenerateDraft a \<in> set (fst (snd (tweet_command e s))) \<longrightarrow>
      (\<exists>articles i.
         current_articles (fst (tweet_command e s)) = Some articles \<and>
         i < length articles \<and> a = articles ! i \<and>
         used_indices (fst (tweet_command e s)) = used_before_selection s @ [i] \<and>
         i \<notin> set (used_before_selection s) \<and>
         i \<notin> set (available_articles articles (used_indices (fst (tweet_command e s)))))) \<and>
   (GenerateDraft b \<in> set (fst (snd (main_loop_body e approval st))) \<longrightarrow>
      (\<exists>articles j.
         cli_articles (fst (main_loop_body e approval st)) = Some articles \<and>
         j < length articles \<and> b = articles ! j \<and>
         cli_used_indices (fst (main_loop_body e approval st)) =
           cli_used_before_selection st @ [j] \<and>
         j \<notin> set (cli_used_before_selection st) \<and>
         j \<notin> set (available_articles articles
                    (cli_used_indices (fst (main_loop_body e approval st)))))) \<and>
   (current_articles s = Some held \<and>
    select_article held (used_indices s) (rand1 e) = Some (i, info) \<longrightarrow>
      used_indices (fst (tweet_command e s)) = used_indices s @ [i] \<and>
      current_articles (fst (tweet_command e s)) = Some held \<and>
      GenerateDraft (held ! i) \<in> set (fst (snd (tweet_command e s)))) \<and>
   (\<not> batch_present (current_articles s) \<and>
    fetch_tech_news (news1 e) = Inr (Some fetched) \<and>
    select_article fetched [] (rand1 e) = Some (i, info) \<longrightarrow>
      used_indices (fst (tweet_command e s)) = [i] \<and>
      current_articles (fst (tweet_command e s)) = Some fetched \<and>
      GenerateDraft (fetched ! i) \<in> set (fst (snd (tweet_command e s)))) \<and>
   (current_articles s = Some held \<and> held \<noteq> [] \<and>
    select_article held (used_indices s) (rand1 e) = None \<and>
    fetch_tech_news (news2 e) = Inr (Some fetched) \<and>
    select_article fetched [] (rand2 e) = Some (i, info) \<longrightarrow>
      used_indices (fst (tweet_command e s)) = [i] \<and>
      current_articles (fst (tweet_command e s)) = Some fetched \<and>
      GenerateDraft (fetched ! i) \<in> set (fst (snd (tweet_command e s)))) \<and>
   (cli_articles st = Some held \<and>
    select_article_cli held (cli_used_indices st) (rand1 e) = Some k \<longrightarrow>
      cli_used_indices (fst (main_loop_body e approval st)) = cli_used_indices st @ [k] \<and>
      cli_articles (fst (main_loop_body e approval st)) = Some held \<and>
      GenerateDraft (held ! k) \<in> set (fst (snd (main_loop_body e approval st)))) \<and>
   (cli_articles st = Some held \<and>
    select_article_cli held (cli_used_indices st) (rand1 e) = None \<and>
    fetch_tech_news (news2 e) = Inr (Some fetched) \<and>
    select_article_cli fetched [] (rand2 e) = Some k \<longrightarrow>
      cli_used_indices (fst (main_loop_body e approval st)) = [k] \<and>
      cli_articles (fst (main_loop_body e approval st)) = Some fetched \<and>
      GenerateDraft (fetched ! k) \<in> set (fst (snd (main_loop_body e approval st))))"
proof (intro conjI impI)
  assume "GenerateDraft a \<in> set (fst (snd (tweet_command e s)))"
  from tweet_command_draft_effect [OF this] obtain articles i where
    f: "current_articles (fst (tweet_command e s)) = Some articles"
      "i < length articles" "a = articles ! i"
      "used_indices (fst (tweet_command e s)) = used_before_selection s @ [i]"
      "i \<notin> set (used_before_selection s)"
    by blast
  have "i \<notin> set (available_articles articles (used_indices (fst (tweet_command e s))))"
    unfolding f(4) by (simp add: set_available_articles)
  with f show "\<exists>articles i.
         current_articles (fst (tweet_command e s)) = Some articles \<and>
         i < length articles \<and> a = articles ! i \<and>
         used_indices (fst (tweet_command e s)) = used_before_selection s @ [i] \<and>
         i \<notin> set (used_before_selection s) \<and>
         i \<notin> set (available_articles articles (used_indices (fst (tweet_command e s))))"
    by blast
next
  assume "GenerateDraft b \<in> set (fst (snd (main_loop_body e approval st)))"
  from main_loop_body_draft_effect [OF this] obtain articles j where
    f: "cli_articles (fst (main_loop_body e approval st)) = Some articles"
      "j < length articles" "b = articles ! j"
      "cli_used_indices (fst (main_loop_body e approval st)) = cli_used_before_selection st @ [j]"
      "j \<notin> set (cli_used_before_selection st)"
    by blast
  have "j \<notin> set (available_articles articles
                    (cli_used_indices (fst (main_loop_body e approval st))))"
    unfolding f(4) by (simp add: set_available_articles)
  with f show "\<exists>articles j.
         cli_articles (fst (main_loop_body e approval st)) = Some articles \<and>
         j < length articles \<and> b = articles ! j \<and>
         cli_used_indices (fst (main_loop_body e approval st)) =
           cli_used_before_selection st @ [j] \<and>
         j \<notin> set (cli_used_before_selection st) \<and>
         j \<notin> set (available_articles articles
                    (cli_used_indices (fst (main_loop_body e approval st))))"
    by blast
next
  assume a: "current_articles s = Some held \<and>
    select_article held (used_indices s) (rand1 e) = Some (i, info)"
  then have t: "tweet_command e s =
           draft_phase e (s\<lparr>last_activity_time := Some (clock e)\<rparr>)
             [Reply LookingForNews] i info held"
    by (intro tweet_command_reaches_draft) simp_all
  show "used_indices (fst (tweet_command e s)) = used_indices s @ [i]"
    "current_articles (fst (tweet_command e s)) = Some held"
    "GenerateDraft (held ! i) \<in> set (fst (snd (tweet_command e s)))"
    unfolding t using a by (simp_all add: draft_phase_fields draft_phase_generates)
next
  assume a: "\<not> batch_present (current_articles s) \<and>
    fetch_tech_news (news1 e) = Inr (Some fetched) \<and>
    select_article fetched [] (rand1 e) = Some (i, info)"
  then have t: "tweet_command e s =
           draft_phase e
             (s\<lparr>last_activity_time := Some (clock e), current_articles := Some fetched,
                used_indices := []\<rparr>)
             [Reply LookingForNews, FetchNews] i info fetched"
    by (intro tweet_command_first_fetch) simp_all
  show "used_indices (fst (tweet_command e s)) = [i]"
    "current_articles (fst (tweet_command e s)) = Some fetched"
    "GenerateDraft (fetched ! i) \<in> set (fst (snd (tweet_command e s)))"
    unfolding t by (simp_all add: draft_phase_fields draft_phase_generates)
next
  assume a: "current_articles s = Some held \<and> held \<noteq> [] \<and>
    select_article held (used_indices s) (rand1 e) = None \<and>
    fetch_tech_news (news2 e) = Inr (Some fetched) \<and>
    select_article fetched [] (rand2 e) = Some (i, info)"
  then have t: "tweet_command e s =
           draft_phase e
             (s\<lparr>last_activity_time := Some (clock e), current_articles := Some fetched,
                used_indices := []\<rparr>)
             [Reply LookingForNews, Reply AllUsedRefetching, FetchNews] i info fetched"
    by (intro tweet_command_refetch [of s held]) simp_all
  show "used_indices (fst (tweet_command e s)) = [i]"
    "current_articles (fst (tweet_command e s)) = Some fetched"
    "GenerateDraft (fetched ! i) \<in> set (fst (snd (tweet_command e s)))"
    unfolding t by (simp_all add: draft_phase_fields draft_phase_generates)
next
  assume a: "cli_articles st = Some held \<and>
    select_article_cli held (cli_used_indices st) (rand1 e) = Some k"
  then have t: "main_loop_body e approval st = cli_draft e approval st [] k held"
    by (intro main_loop_body_reaches_draft) simp_all
  show "cli_used_indices (fst (main_loop_body e approval st)) = cli_used_indices st @ [k]"
    "cli_articles (fst (main_loop_body e approval st)) = Some held"
    "GenerateDraft (held ! k) \<in> set (fst (snd (main_loop_body e approval st)))"
    unfolding t using a by (simp_all add: cli_draft_used cli_draft_articles cli_draft_generates)
next
  assume a: "cli_articles st = Some held \<and>
    select_article_cli held (cli_used_indices st) (rand1 e) = None \<and>
    fetch_tech_news (news2 e) = Inr (Some fetched) \<and>
    select_article_cli fetched [] (rand2 e) = Some k"
  then have t: "main_loop_body e approval st =
           cli_draft e approval (st\<lparr>cli_articles := Some fetched, cli_used_indices := []\<rparr>)
             [FetchNews] k fetched"
    by (intro main_loop_body_refetch [of st held]) simp_all
  show "cli_used_indices (fst (main_loop_body e approval st)) = [k]"
    "cli_articles (fst (main_loop_body e approval st)) = Some fetched"
    "GenerateDraft (fetched ! k) \<in> set (fst (snd (main_loop_body e approval st)))"
    unfolding t by (simp_all add: cli_draft_used cli_draft_articles cli_draft_generates)
qed


text \<open>
  Both flows with a generator that returns \<open>None\<close>, on each path: the first /tweet, a
  /tweet with a batch held, a /tweet and a loop iteration after the batch is exhausted.
\<close>

theorem index_used_before_draft_witness:
  "\<not> batch_present (current_articles started_session) \<and>
   fetch_tech_news (news1 no_draft_env) = Inr (Some [sample_a, sample_b, sample_c]) \<and>
   select_article [sample_a, sample_b, sample_c] [] (rand1 no_draft_env) =
     Some (1, ArticleInfo 2 3 sample_b) \<and>
   GenerateDraft sample_b \<in> set (fst (snd (tweet_command no_draft_env started_session))) \<and>
   used_indices (fst (tweet_command no_draft_env started_session)) = [1] \<and>
   current_articles drafted_session = Some [sample_a, sample_b, sample_c] \<and>
   select_article [sample_a, sample_b, sample_c] (used_indices drafted_session)
     (rand1 no_draft_env) = Some (0, ArticleInfo 1 3 sample_a) \<and>
   used_indices (fst (tweet_command no_draft_env drafted_session)) = [2, 0] \<and>
   current_articles exhausted_session = Some [sample_a, sample_b, sample_c] \<and>
   select_article [sample_a, sample_b, sample_c] (used_indices exhausted_session)
     (rand1 no_draft_env) = None \<and>
   fetch_tech_news (news2 no_draft_env) = Inr (Some [sample_a, sample_b, sample_c]) \<and>
   select_article [sample_a, sample_b, sample_c] [] (rand2 no_draft_env) =
     Some (0, ArticleInfo 1 3 sample_a) \<and>
   used_indices (fst (tweet_command no_draft_env exhausted_session)) = [0] \<and>
   select_article_cli [sample_a, sample_b, sample_c] [0] (rand1 no_draft_env) = Some 1 \<and>
   GenerateDraft sample_b \<in> set (fst (snd (main_loop_body no_draft_env ''new''
      \<lparr>cli_articles = Some [sample_a, sample_b, sample_c], cli_used_indices = [0]\<rparr>))) \<and>
   cli_used_indices (fst (main_loop_body no_draft_env ''new''
      \<lparr>cli_articles = Some [sample_a, sample_b, sample_c], cli_used_indices = [0]\<rparr>)) = [0, 1] \<and>
   select_article_cli [sample_a, sample_b, sample_c] [1, 0, 2] (rand1 no_draft_env) = None \<and>
   select_article_cli [sample_a, sample_b, sample_c] [] (rand2 no_draft_env) = Some 0 \<and>
   cli_used_indices (fst (main_loop_body no_draft_env ''new''
      \<lparr>cli_articles = Some [sample_a, sample_b, sample_c], cli_used_indices = [1, 0, 2]\<rparr>)) = [0]"
proof -
  let ?batch = "[sample_a, sample_b, sample_c]"
  let ?st = "\<lparr>cli_articles = Some ?batch, cli_used_indices = [0]\<rparr>"
  let ?st' = "\<lparr>cli_articles = Some ?batch, cli_used_indices = [1, 0, 2]\<rparr>"
  have given:
    "\<not> batch_present (current_articles started_session)"
    "fetch_tech_news (news1 no_draft_env) = Inr (Some ?batch)"
    "fetch_tech_news (news2 no_draft_env) = Inr (Some ?batch)"
    "select_article ?batch [] (rand1 no_draft_env) = Some (1, ArticleInfo 2 3 sample_b)"
    "current_articles drafted_session = Some ?batch"
    "select_article ?batch (used_indices drafted_session) (rand1 no_draft_env) =
       Some (0, ArticleInfo 1 3 sample_a)"
    "current_articles exhausted_session = Some ?batch"
    "select_article ?batch (used_indices exhausted_session) (rand1 no_draft_env) = None"
    "select_article ?batch [] (rand2 no_draft_env) = Some (0, ArticleInfo 1 3 sample_a)"
    "select_article_cli ?batch [0] (rand1 no_draft_env) = Some 1"
    "select_article_cli ?batch [1, 0, 2] (rand1 no_draft_env) = None"
    "select_article_cli ?batch [] (rand2 no_draft_env) = Some 0"
    by code_simp+
  have more: "used_indices drafted_session = [2]" "?batch ! 1 = sample_b" "?batch \<noteq> []"
    by (simp_all add: drafted_session_def sample_session_def)
  note first = index_used_before_draft [where s = started_session and e = no_draft_env
      and fetched = ?batch and i = 1 and info = "ArticleInfo 2 3 sample_b"]
  note held = index_used_before_draft [where s = drafted_session and e = no_draft_env
      and held = ?batch and i = 0 and info = "ArticleInfo 1 3 sample_a"]
  note again = index_used_before_draft [where s = exhausted_session and e = no_draft_env
      and held = ?batch and fetched = ?batch and i = 0 and info = "ArticleInfo 1 3 sample_a"]
  note cli = index_used_before_draft [where st = ?st and e = no_draft_env and approval = "''new''"
      and held = ?batch and k = 1]
  note cli' = index_used_before_draft [where st = ?st' and e = no_draft_env
      and approval = "''new''" and held = ?batch and fetched = ?batch and k = 0]
  show ?thesis
    using first held again cli cli' given more by simp
qed





section \<open>What a failed fetch looks like\<close>

text \<open>A transport error: the exception of \<open>requests.get\<close> leaves the function; nothing is returned.\<close>

theorem transport_error_counterexample:
  "fetch_tech_news (HttpRaised ConnectionError) = Inl ConnectionError \<and>
   fetch_tech_news (HttpRaised ConnectionError) \<noteq> Inr None"
  by (simp add: fetch_tech_news_def)

text \<open>
  Claim C9, as the code has it. \<open>fetch_tech_news\<close> returns \<open>None\<close> when the status is not
  200 and when the answer's article list is empty (falsy); \<open>tweet_command\<close>, holding no
  batch, handles a returned \<open>None\<close> in one way, whichever of the two produced it: it
  reports the fetch failure and stops. A transport error is not turned into \<open>None\<close>: the
  exception leaves \<open>fetch_tech_news\<close> and \<open>tweet_command\<close>, and no failure is reported.
\<close>

theorem fetch_failure_signals:
  "(status_code \<noteq> 200 \<longrightarrow> fetch_tech_news (HttpResponse status_code body) = Inr None) \<and>
   (dict_get data ''articles'' (JList []) = Inr articles \<and> \<not> truthy articles \<longrightarrow>
      fetch_tech_news (HttpResponse 200 (Some data)) = Inr None) \<and>
   fetch_tech_news (HttpRaised err) = Inl err \<and>
   (\<not> batch_present (current_articles s) \<and> fetch_tech_news (news1 e) = Inr None \<longrightarrow>
      tweet_command e s =
        (s\<lparr>last_activity_time := Some (clock e), current_articles := None, used_indices := []\<rparr>,
         [Reply LookingForNews, FetchNews, Reply FetchFailed], None)) \<and>
   (\<not> batch_present (current_articles s) \<and> fetch_tech_news (news1 e) = Inl err \<longrightarrow>
      tweet_command e s =
        (s\<lparr>last_activity_time := Some (clock e)\<rparr>, [Reply LookingForNews, FetchNews], Some err))"
  by (simp add: fetch_tech_news_def tweet_command_def update_activity_timestamp_def Let_def
      batch_present_def)

text \<open>A status 500, an empty article list and a connection error, each at a first /tweet.\<close>

theorem fetch_failure_signals_witness:
  "(500::int) \<noteq> 200 \<and> fetch_tech_news (HttpResponse 500 None) = Inr None \<and>
   dict_get (JDict [(''status'', JStr ''ok''), (''articles'', JList [])]) ''articles'' (JList []) =
     Inr (JList []) \<and>
   fetch_tech_news (HttpResponse 200
     (Some (JDict [(''status'', JStr ''ok''), (''articles'', JList [])]))) = Inr None \<and>
   fetch_tech_news (news1 failing_env) = Inr None \<and>
   tweet_command failing_env initial_session =
     (initial_session\<lparr>last_activity_time := Some 1200, current_articles := None\<rparr>,
      [Reply LookingForNews, FetchNews, Reply FetchFailed], None) \<and>
   tweet_command
     (failing_env\<lparr>news1 := HttpResponse 200
        (Some (JDict [(''status'', JStr ''ok''), (''articles'', JList [])]))\<rparr>) initial_session =
     (initial_session\<lparr>last_activity_time := Some 1200, current_articles := None\<rparr>,
      [Reply LookingForNews, FetchNews, Reply FetchFailed], None) \<and>
   tweet_command (failing_env\<lparr>news1 := HttpRaised ConnectionError\<rparr>) initial_session =
     (initial_session\<lparr>last_activity_time := Some 1200\<rparr>,
      [Reply LookingForNews, FetchNews], Some ConnectionError)"
proof -
  let ?data = "JDict [(''status'', JStr ''ok''), (''articles'', JList [])]"
  let ?empty = "failing_env\<lparr>news1 := HttpResponse 200 (Some ?data)\<rparr>"
  let ?raised = "failing_env\<lparr>news1 := HttpRaised ConnectionError\<rparr>"
  have g: "dict_get ?data ''articles'' (JList []) = Inr (JList [])"
    by (simp add: dict_get_def)
  have f1: "fetch_tech_news (news1 failing_env) = Inr None"
    by (simp add: fetch_tech_news_def failing_env_def)
  have f2: "fetch_tech_news (news1 ?empty) = Inr None"
    by (simp add: fetch_tech_news_def g)
  have f3: "fetch_tech_news (news1 ?raised) = Inl ConnectionError"
    by (simp add: fetch_tech_news_def)
  have facts: "\<not> batch_present (current_articles initial_session)"
    "clock failing_env = 1200" "clock ?empty = 1200" "clock ?raised = 1200"
    by (simp_all add: failing_env_def initial_session_def batch_present_def)
  show ?thesis
    using fetch_failure_signals [of 500 None ?data "JList []" ConnectionError initial_session failing_env]
      fetch_failure_signals [of 500 None ?data "JList []" ConnectionError initial_session ?empty]
      fetch_failure_signals [of 500 None ?data "JList []" ConnectionError initial_session ?raised]
      g f1 f2 f3 facts
    by (simp add: initial_session_def)
qed

end
